theory Spec2Isabelle
  imports Complex_Main
begin

section \<open>Separation pairs of a contig graph: spqr_asmviz.cpp\<close>

text \<open>
  The program reads a list of oriented links, builds a graph with one node per contig,
  and hands it to the OGDF library, which computes connected components, the BC-tree of
  each component and the SPQR-tree of each block. The program's own code walks these
  structures and collects pairs of contigs in the global vector \<open>pairs\<close>.

  The OGDF classes (\<open>Graph\<close>, \<open>BCTree\<close>, \<open>GraphCopy\<close>, \<open>StaticSPQRTree\<close>,
  \<open>Skeleton\<close>) are library code: their values are inputs of the functions below, as
  records holding what the program reads from them.
\<close>

subsection \<open>Graphs as the program reads them\<close>

text \<open>
  A \<open>node\<close> is used through \<open>n->index()\<close> only, so a node is its index. An
  \<open>edge\<close> is an object of its own (two edges may join the same nodes), so it keeps an
  index beside its end points. \<open>forall_nodes\<close> and \<open>forall_edges\<close> run through the
  lists in order.
\<close>

type_synonym node = int

record edge =
  e_index :: int
  source :: node
  target :: node

record Graph =
  g_nodes :: "node list"
  g_edges :: "edge list"

text \<open>
  A skeleton of the SPQR-tree: its graph, the flag \<open>sk.isVirtual(e)\<close> and the node
  of the block that a skeleton node stands for, \<open>sk.original(n)\<close>.
\<close>

record Skeleton =
  getGraph :: Graph
  isVirtual :: "edge \<Rightarrow> bool"
  sk_original :: "node \<Rightarrow> node"

text \<open>
  \<open>unordered_map<int,int> sk2orig\<close> is read with \<open>operator[]\<close> only, which gives 0
  for a key that is absent: it is a total function, \<open>\<lambda>_. 0\<close> when empty.
  The global \<open>vector<pair<int,int> > pairs\<close> is a list, \<open>push_back\<close> appends.
\<close>

type_synonym sk2orig_map = "int \<Rightarrow> int"
type_synonym pair_list = "(int \<times> int) list"

subsection \<open>getTypeString\<close>

definition getTypeString :: "int \<Rightarrow> string" where
  "getTypeString type =
     (if type = 0 then ''S''
      else if type = 1 then ''P''
      else if type = 2 then ''R''
      else ''unkown'')"

subsection \<open>findTwoVertexCuts\<close>

text \<open>The loop of the R branch: every virtual edge pushes its pair.\<close>

fun R_edges :: "Skeleton \<Rightarrow> sk2orig_map \<Rightarrow> edge list \<Rightarrow> pair_list \<Rightarrow> pair_list" where
  "R_edges sk sk2orig [] pairs = pairs"
| "R_edges sk sk2orig (e # es) pairs =
     R_edges sk sk2orig es
       (if isVirtual sk e then pairs @ [(sk2orig (source e), sk2orig (target e))]
        else pairs)"

text \<open>
  The loop of the P branch, with its counter: the second virtual edge pushes its pair
  and \<open>break\<close> leaves the loop.
\<close>

fun P_edges ::
  "Skeleton \<Rightarrow> sk2orig_map \<Rightarrow> edge list \<Rightarrow> int \<Rightarrow> pair_list \<Rightarrow> pair_list" where
  "P_edges sk sk2orig [] virtualCount pairs = pairs"
| "P_edges sk sk2orig (e # es) virtualCount pairs =
     (if isVirtual sk e then
        (if virtualCount + 1 > 1
         then pairs @ [(sk2orig (source e), sk2orig (target e))]
         else P_edges sk sk2orig es (virtualCount + 1) pairs)
      else P_edges sk sk2orig es virtualCount pairs)"

text \<open>
  The first loop of the S branch. The \<open>else\<close> has no braces, so it governs the first
  assignment only: \<open>adjacent[(target, source)] = true\<close> runs for every edge, virtual
  or not. Only the keys of \<open>adjacent\<close> are ever read (\<open>find\<close>), so it is a set of keys.
\<close>

fun S_edges ::
  "Skeleton \<Rightarrow> sk2orig_map \<Rightarrow> edge list \<Rightarrow> pair_list \<times> (int \<times> int) set
    \<Rightarrow> pair_list \<times> (int \<times> int) set" where
  "S_edges sk sk2orig [] (pairs, adjacent) = (pairs, adjacent)"
| "S_edges sk sk2orig (e # es) (pairs, adjacent) =
     (let s = sk2orig (source e); t = sk2orig (target e) in
      if isVirtual sk e
      then S_edges sk sk2orig es (pairs @ [(s, t)], insert (t, s) adjacent)
      else S_edges sk sk2orig es (pairs, insert (t, s) (insert (s, t) adjacent)))"

text \<open>
  The second loop of the S branch: \<open>i\<close> from 0 below \<open>nrNodes - 1\<close>, \<open>j\<close> from
  \<open>i + 1\<close> below \<open>nrNodes\<close>; a pair is pushed when either direction is missing from
  \<open>adjacent\<close>.
\<close>

fun S_scan_j ::
  "int list \<Rightarrow> (int \<times> int) set \<Rightarrow> nat \<Rightarrow> nat list \<Rightarrow> pair_list \<Rightarrow> pair_list" where
  "S_scan_j allnodes adjacent i [] pairs = pairs"
| "S_scan_j allnodes adjacent i (j # js) pairs =
     S_scan_j allnodes adjacent i js
       (if (allnodes ! i, allnodes ! j) \<notin> adjacent \<or> (allnodes ! j, allnodes ! i) \<notin> adjacent
        then pairs @ [(allnodes ! i, allnodes ! j)]
        else pairs)"

fun S_scan_i ::
  "int list \<Rightarrow> (int \<times> int) set \<Rightarrow> nat \<Rightarrow> nat list \<Rightarrow> pair_list \<Rightarrow> pair_list" where
  "S_scan_i allnodes adjacent nrNodes [] pairs = pairs"
| "S_scan_i allnodes adjacent nrNodes (i # is) pairs =
     S_scan_i allnodes adjacent nrNodes is
       (S_scan_j allnodes adjacent i [i + 1 ..< nrNodes] pairs)"

text \<open>
  \<open>findTwoVertexCuts(bicomp, sk, sk2orig, type)\<close>; \<open>bicomp\<close> is never read. The
  function takes the global \<open>pairs\<close> and returns it updated. A \<open>type\<close> that is none
  of the three strings falls through every branch.
\<close>

definition findTwoVertexCuts ::
  "Skeleton \<Rightarrow> sk2orig_map \<Rightarrow> string \<Rightarrow> pair_list \<Rightarrow> pair_list" where
  "findTwoVertexCuts sk sk2orig type pairs =
     (let G = getGraph sk;
          nrNodes = length (g_nodes G);
          allnodes = map sk2orig (g_nodes G)
      in if type = ''R'' then R_edges sk sk2orig (g_edges G) pairs
         else if type = ''P'' then P_edges sk sk2orig (g_edges G) 0 pairs
         else if type = ''S'' then
           (case S_edges sk sk2orig (g_edges G) (pairs, {}) of
              (pairs1, adjacent) \<Rightarrow>
                S_scan_i allnodes adjacent nrNodes [0 ..< nrNodes - 1] pairs1)
         else pairs)"

subsection \<open>The BC-tree and getCutVertexPair\<close>

text \<open>
  What the program reads from a \<open>BCTree\<close>: the tree itself, the type of a tree node
  (\<open>BComp\<close> is 0, \<open>CComp\<close> is 1), \<open>cutVertex\<close> (a null pointer is \<open>None\<close>),
  \<open>original\<close>, the auxiliary graph, the edges of a block and the number of blocks.
  The library roots the tree and gives every node but the root one edge, to its parent.
\<close>

record BCTree =
  bcTree :: Graph
  typeOfBNode :: "node \<Rightarrow> int"
  cutVertex :: "node \<Rightarrow> node \<Rightarrow> node option"
  bc_original :: "node \<Rightarrow> node"
  auxiliaryGraph :: Graph
  hEdges :: "node \<Rightarrow> edge list"
  numberOfBComps :: int

text \<open>A \<open>GraphCopy\<close>: the copy's own graph and the maps between copy and original.\<close>

record GraphCopy =
  gc_graph :: Graph
  gc_original :: "node \<Rightarrow> node"
  copy_node :: "node \<Rightarrow> node"
  copy_edge :: "edge \<Rightarrow> edge"

definition inEdges :: "Graph \<Rightarrow> node \<Rightarrow> edge list" where
  "inEdges G v = filter (\<lambda>e. target e = v) (g_edges G)"

definition outEdges :: "Graph \<Rightarrow> node \<Rightarrow> edge list" where
  "outEdges G v = filter (\<lambda>e. source e = v) (g_edges G)"

text \<open>
  \<open>getCutVertexPair(GC, bcTreeNode, bc, CC, bicomp)\<close>; \<open>CC\<close>, \<open>bicomp\<close> and the two
  size parameters are never read. \<open>front\<close> and \<open>back\<close> are taken of lists whose length
  has just been tested. In the branch of two outgoing edges the source reads \<open>out1\<close>
  for both \<open>n1\<close> and \<open>n2\<close>; \<open>out2\<close> is assigned and not used.
\<close>

definition getCutVertexPair :: "GraphCopy \<Rightarrow> node \<Rightarrow> BCTree \<Rightarrow> pair_list \<Rightarrow> pair_list" where
  "getCutVertexPair GC bcTreeNode bc pairs =
     (if typeOfBNode bc bcTreeNode \<noteq> 0 then pairs
      else
        let bcT = bcTree bc;
            incoming = inEdges bcT bcTreeNode;
            outgoing = outEdges bcT bcTreeNode
        in if length incoming + length outgoing = 2 then
             (let (n1, n2) =
                (if length incoming = 2 then
                   (let in1 = hd incoming; in2 = last incoming
                    in (cutVertex bc (source in1) (source in1),
                        cutVertex bc (source in2) (source in2)))
                 else if length outgoing = 2 then
                   (let out1 = hd outgoing; out2 = last outgoing
                    in (cutVertex bc (target out1) (target out1),
                        cutVertex bc (target out1) (target out1)))
                 else
                   (let out1 = hd outgoing; in1 = hd incoming
                    in (cutVertex bc (target out1) (target out1),
                        cutVertex bc (source in1) (source in1))))
              in case (n1, n2) of
                   (Some v1, Some v2) \<Rightarrow>
                     pairs @ [(bc_original bc (gc_original GC v1),
                               bc_original bc (gc_original GC v2))]
                 | _ \<Rightarrow> pairs)
           else pairs)"

subsection \<open>searchList and getBiComponent\<close>

fun searchList_from :: "edge list \<Rightarrow> edge \<Rightarrow> int \<Rightarrow> int" where
  "searchList_from [] e x = -1"
| "searchList_from (i # S) e x = (if i = e then x else searchList_from S e (x + 1))"

definition searchList :: "edge list \<Rightarrow> edge \<Rightarrow> int" where
  "searchList S e = searchList_from S e 0"

text \<open>The graph operations the program calls on the copy.\<close>

definition delEdge :: "GraphCopy \<Rightarrow> edge \<Rightarrow> GraphCopy" where
  "delEdge GC e =
     GC\<lparr>gc_graph := (gc_graph GC)\<lparr>g_edges := filter (\<lambda>x. x \<noteq> e) (g_edges (gc_graph GC))\<rparr>\<rparr>"

definition delNode :: "GraphCopy \<Rightarrow> node \<Rightarrow> GraphCopy" where
  "delNode GC v =
     GC\<lparr>gc_graph := (gc_graph GC)
        \<lparr>g_nodes := filter (\<lambda>x. x \<noteq> v) (g_nodes (gc_graph GC)),
         g_edges := filter (\<lambda>x. source x \<noteq> v \<and> target x \<noteq> v) (g_edges (gc_graph GC))\<rparr>\<rparr>"

definition degree :: "GraphCopy \<Rightarrow> node \<Rightarrow> nat" where
  "degree GC v =
     length (filter (\<lambda>x. source x = v) (g_edges (gc_graph GC)))
       + length (filter (\<lambda>x. target x = v) (g_edges (gc_graph GC)))"

text \<open>\<open>std::set<int>\<close>: a sorted list without repetition; iteration is ascending.\<close>

definition set_insert :: "int \<Rightarrow> int list \<Rightarrow> int list" where
  "set_insert x xs = (if x \<in> set xs then xs else insort x xs)"

fun prune_edges :: "edge list \<Rightarrow> edge list \<Rightarrow> GraphCopy \<Rightarrow> GraphCopy" where
  "prune_edges componentEdges [] GC = GC"
| "prune_edges componentEdges (e # es) GC =
     prune_edges componentEdges es
       (if searchList componentEdges e = -1 then delEdge GC (copy_edge GC e) else GC)"

fun prune_nodes ::
  "BCTree \<Rightarrow> node list \<Rightarrow> int list \<times> GraphCopy \<Rightarrow> int list \<times> GraphCopy" where
  "prune_nodes bc [] (memberNodes, GC) = (memberNodes, GC)"
| "prune_nodes bc (n # ns) (memberNodes, GC) =
     (if degree GC (copy_node GC n) = 0
      then prune_nodes bc ns (memberNodes, delNode GC (copy_node GC n))
      else prune_nodes bc ns (set_insert (bc_original bc n) memberNodes, GC))"

text \<open>
  \<open>getBiComponent(GC, p_bct, bcTreeNode)\<close> returns the member set and leaves the copy
  pruned to the block: the result is the pair of both.
\<close>

definition getBiComponent :: "GraphCopy \<Rightarrow> BCTree \<Rightarrow> node \<Rightarrow> int list \<times> GraphCopy" where
  "getBiComponent GC bc bcTreeNode =
     (let auxGraph = auxiliaryGraph bc;
          componentEdges = hEdges bc bcTreeNode
      in prune_nodes bc (g_nodes auxGraph)
           ([], prune_edges componentEdges (g_edges auxGraph) GC))"

subsection \<open>The decomposition loops of main\<close>

text \<open>
  What the program reads from a \<open>StaticSPQRTree\<close>. \<open>typeOf\<close> yields \<open>SNode\<close>,
  \<open>PNode\<close> or \<open>RNode\<close>, the values 0, 1 and 2; \<open>getTypeString\<close> stores it in an
  \<open>int\<close>, and so does the record.
\<close>

record StaticSPQRTree =
  tree :: Graph
  typeOf :: "node \<Rightarrow> int"
  skeleton :: "node \<Rightarrow> Skeleton"

text \<open>
  The library calls of the loop body whose results depend on the pruned copy: the
  constructor \<open>GraphCopy GC(H)\<close>, \<open>isBiconnected\<close>, \<open>isLoopFree\<close> and the constructor
  \<open>StaticSPQRTree spqr(GC)\<close>.
\<close>

record OGDF =
  GraphCopy_init :: "Graph \<Rightarrow> GraphCopy"
  isBiconnected :: "Graph \<Rightarrow> bool"
  isLoopFree :: "Graph \<Rightarrow> bool"
  StaticSPQRTree_init :: "GraphCopy \<Rightarrow> StaticSPQRTree"

text \<open>
  The variables that live across iterations: \<open>memberNodes\<close> and \<open>sk2orig\<close> (declared
  before the loop over components), the global \<open>pairs\<close>, and the lines written to
  \<open>ofile\<close>. The diagnostic files (\<open>spqr*.gml\<close>, \<open>component_*.info\<close>) and the messages
  on \<open>cerr\<close> are not part of the state.
\<close>

record state =
  memberNodes :: "int list"
  sk2orig :: sk2orig_map
  pairs :: pair_list
  ofile :: "string list"

text \<open>\<open>original(n, bc, GC, sk)\<close>.\<close>

definition original :: "node \<Rightarrow> BCTree \<Rightarrow> GraphCopy \<Rightarrow> Skeleton \<Rightarrow> node" where
  "original n bc GC sk = bc_original bc (gc_original GC (sk_original sk n))"

text \<open>The loop over the nodes of one skeleton, which fills \<open>sk2orig\<close>.\<close>

fun fill_sk2orig ::
  "BCTree \<Rightarrow> GraphCopy \<Rightarrow> Skeleton \<Rightarrow> node list \<Rightarrow> sk2orig_map \<Rightarrow> sk2orig_map" where
  "fill_sk2orig bc GC sk [] m = m"
| "fill_sk2orig bc GC sk (Nn # Nns) m =
     fill_sk2orig bc GC sk Nns (m(Nn := original Nn bc GC sk))"

text \<open>The loop over the nodes of the SPQR-tree.\<close>

fun spqr_nodes ::
  "BCTree \<Rightarrow> GraphCopy \<Rightarrow> StaticSPQRTree \<Rightarrow> node list \<Rightarrow> state \<Rightarrow> state" where
  "spqr_nodes bc GC spqr [] st = st"
| "spqr_nodes bc GC spqr (n # ns) st =
     (let sk = skeleton spqr n;
          Gn = getGraph sk;
          m = fill_sk2orig bc GC sk (g_nodes Gn) (sk2orig st);
          type = getTypeString (typeOf spqr n)
      in spqr_nodes bc GC spqr ns
           (st\<lparr>sk2orig := m, pairs := findTwoVertexCuts sk m type (pairs st)\<rparr>))"

text \<open>One line of the output file: the two names, then a tab and a name per member.\<close>

definition tab :: char where
  "tab = CHR 0x09"

definition output_line :: "(int \<Rightarrow> string) \<Rightarrow> int list \<Rightarrow> int \<times> int \<Rightarrow> string" where
  "output_line intid2contig members p =
     intid2contig (fst p) @ [tab] @ intid2contig (snd p)
       @ concat (map (\<lambda>it. tab # intid2contig it) members)"

text \<open>
  The body of the loop over the nodes of the BC-tree. \<open>continue\<close> is the first
  statement of the branch of a block that fails the test, before the messages.
\<close>

definition bc_node_body ::
  "OGDF \<Rightarrow> (int \<Rightarrow> string) \<Rightarrow> BCTree \<Rightarrow> node \<Rightarrow> state \<Rightarrow> state" where
  "bc_node_body ogdf intid2contig bc bcTreeNode st =
     (if typeOfBNode bc bcTreeNode = 0 then
        (case getBiComponent (GraphCopy_init ogdf (auxiliaryGraph bc)) bc bcTreeNode of
           (members, GC) \<Rightarrow>
             let st1 = st\<lparr>memberNodes := members\<rparr>;
                 biconnected = isBiconnected ogdf (gc_graph GC);
                 nrEdges = int (length (g_edges (gc_graph GC)));
                 loopfree = isLoopFree ogdf (gc_graph GC)
             in if \<not> biconnected \<or> nrEdges \<le> 2 \<or> \<not> loopfree then st1
                else
                  let st2 = st1\<lparr>pairs := getCutVertexPair GC bcTreeNode bc (pairs st1)\<rparr>;
                      spqr = StaticSPQRTree_init ogdf GC;
                      st3 = spqr_nodes bc GC spqr (g_nodes (tree spqr)) st2
                  in st3\<lparr>ofile := ofile st3
                              @ map (output_line intid2contig (memberNodes st3)) (pairs st3),
                         pairs := []\<rparr>)
      else st)"

fun bc_nodes ::
  "OGDF \<Rightarrow> (int \<Rightarrow> string) \<Rightarrow> BCTree \<Rightarrow> node list \<Rightarrow> state \<Rightarrow> state" where
  "bc_nodes ogdf intid2contig bc [] st = st"
| "bc_nodes ogdf intid2contig bc (bcTreeNode # rest) st =
     bc_nodes ogdf intid2contig bc rest (bc_node_body ogdf intid2contig bc bcTreeNode st)"

text \<open>
  The loop over the connected components: \<open>bcs\<close> holds the \<open>BCTree\<close> that the
  library builds in each iteration.
\<close>

fun components ::
  "OGDF \<Rightarrow> (int \<Rightarrow> string) \<Rightarrow> BCTree list \<Rightarrow> state \<Rightarrow> state" where
  "components ogdf intid2contig [] st = st"
| "components ogdf intid2contig (bc # bcs) st =
     components ogdf intid2contig bcs
       (if numberOfBComps bc = 0 then st
        else bc_nodes ogdf intid2contig bc (g_nodes (bcTree bc)) st)"

definition initial_state :: state where
  "initial_state = \<lparr>memberNodes = [], sk2orig = (\<lambda>_. 0), pairs = [], ofile = []\<rparr>"

subsection \<open>Reading the link file and building the graph\<close>

text \<open>
  The seven values that \<open>iss >> a >> b >> c >> d >> e >> f >> g\<close> extracts from a
  line, under the names the class \<open>Link\<close> gives them. The stream extraction is the
  C++ library's: it is the parameter \<open>parse\<close> below, \<open>None\<close> when the extraction
  fails. The file is read twice and is taken to hold the same lines both times.
\<close>

record link =
  contig_a :: string
  contig_a_orientation :: string
  contig_b :: string
  contig_b_orientation :: string
  mean :: real
  stdev :: real
  bundle_size :: int

text \<open>
  \<open>revid2contig\<close> is tested with \<open>find\<close>, so it is a partial map; \<open>id2contig\<close> and
  \<open>intid2contig\<close> are read with \<open>operator[]\<close> only, which gives the empty string for
  an absent key. \<open>contig_id\<close> starts at 1; its range as a C++ \<open>int\<close> is not modelled.
\<close>

record build_state =
  graph :: Graph
  id2contig :: "node \<Rightarrow> string"
  intid2contig :: "int \<Rightarrow> string"
  revid2contig :: "string \<rightharpoonup> node"
  contig_id :: int

definition newNode :: "Graph \<Rightarrow> int \<Rightarrow> Graph" where
  "newNode G i = G\<lparr>g_nodes := g_nodes G @ [i]\<rparr>"

text \<open>A new edge takes the next free edge index; no edge of \<open>G\<close> is ever deleted.\<close>

definition newEdge :: "Graph \<Rightarrow> node \<Rightarrow> node \<Rightarrow> Graph" where
  "newEdge G v w =
     G\<lparr>g_edges := g_edges G
          @ [\<lparr>e_index = int (length (g_edges G)), source = v, target = w\<rparr>]\<rparr>"

text \<open>The two \<open>if\<close> blocks of the first loop do the same for \<open>a\<close> and for \<open>c\<close>.\<close>

definition register_contig :: "string \<Rightarrow> build_state \<Rightarrow> build_state" where
  "register_contig name st =
     (if revid2contig st name = None then
        st\<lparr>graph := newNode (graph st) (contig_id st),
           id2contig := (id2contig st)(contig_id st := name),
           intid2contig := (intid2contig st)(contig_id st := name),
           revid2contig := (revid2contig st)(name \<mapsto> contig_id st),
           contig_id := contig_id st + 1\<rparr>
      else st)"

fun read_nodes :: "('l \<Rightarrow> link option) \<Rightarrow> 'l list \<Rightarrow> build_state \<Rightarrow> build_state" where
  "read_nodes parse [] st = st"
| "read_nodes parse (line # rest) st =
     (case parse line of
        None \<Rightarrow> st
      | Some l \<Rightarrow>
          read_nodes parse rest (register_contig (contig_b l) (register_contig (contig_a l) st)))"

text \<open>
  In the second loop \<open>revid2contig[a]\<close> is a null node when the name is absent, and
  \<open>newEdge\<close> on a null node is an error.
\<close>

datatype error = NullNode

fun read_edges ::
  "('l \<Rightarrow> link option) \<Rightarrow> 'l list \<Rightarrow> build_state \<Rightarrow> error + build_state" where
  "read_edges parse [] st = Inr st"
| "read_edges parse (line # rest) st =
     (case parse line of
        None \<Rightarrow> Inr st
      | Some l \<Rightarrow>
          (case (revid2contig st (contig_a l), revid2contig st (contig_b l)) of
             (Some first, Some second) \<Rightarrow>
               read_edges parse rest (st\<lparr>graph := newEdge (graph st) first second\<rparr>)
           | _ \<Rightarrow> Inl NullNode))"

definition initial_build :: build_state where
  "initial_build =
     \<lparr>graph = \<lparr>g_nodes = [], g_edges = []\<rparr>,
      id2contig = (\<lambda>_. []), intid2contig = (\<lambda>_. []),
      revid2contig = Map.empty, contig_id = 1\<rparr>"

definition build_graph :: "('l \<Rightarrow> link option) \<Rightarrow> 'l list \<Rightarrow> error + build_state" where
  "build_graph parse lines = read_edges parse lines (read_nodes parse lines initial_build)"

section \<open>Notions used in the statements\<close>

subsection \<open>Ingested records and first-seen order\<close>

text \<open>The records of the lines before the first line that fails to parse.\<close>

fun parsed_prefix :: "('l \<Rightarrow> link option) \<Rightarrow> 'l list \<Rightarrow> link list" where
  "parsed_prefix parse [] = []"
| "parsed_prefix parse (line # rest) =
     (case parse line of None \<Rightarrow> [] | Some l \<Rightarrow> l # parsed_prefix parse rest)"

definition contig_names :: "link list \<Rightarrow> string list" where
  "contig_names ls = concat (map (\<lambda>l. [contig_a l, contig_b l]) ls)"

text \<open>Every name once, in the order of first appearance.\<close>

definition first_seen :: "string list \<Rightarrow> string list" where
  "first_seen xs = rev (remdups (rev xs))"

text \<open>What holds between the two passes over the file, after the names \<open>names\<close>.\<close>

definition reg_inv :: "build_state \<Rightarrow> string list \<Rightarrow> bool" where
  "reg_inv st names \<longleftrightarrow>
     map (intid2contig st) (g_nodes (graph st)) = first_seen names
     \<and> g_nodes (graph st) = map int [1 ..< Suc (length (first_seen names))]
     \<and> contig_id st = int (length (first_seen names)) + 1
     \<and> g_edges (graph st) = []
     \<and> (\<forall>name. name \<notin> set names \<longrightarrow> revid2contig st name = None)
     \<and> (\<forall>name \<in> set names. \<exists>n. revid2contig st name = Some n
            \<and> n \<in> set (g_nodes (graph st)) \<and> intid2contig st n = name)"

text \<open>A simple graph: no edge from a node to itself, no two edges between the same nodes.\<close>

definition loop_free :: "Graph \<Rightarrow> bool" where
  "loop_free G = list_all (\<lambda>e. source e \<noteq> target e) (g_edges G)"

definition no_parallel_edges :: "Graph \<Rightarrow> bool" where
  "no_parallel_edges G =
     distinct (map (\<lambda>e. (min (source e) (target e), max (source e) (target e))) (g_edges G))"

definition simple_graph :: "Graph \<Rightarrow> bool" where
  "simple_graph G = (loop_free G \<and> no_parallel_edges G)"

subsection \<open>The two phases of the Series rule\<close>

definition real_joined :: "Skeleton \<Rightarrow> sk2orig_map \<Rightarrow> int \<Rightarrow> int \<Rightarrow> bool" where
  "real_joined sk m u v \<longleftrightarrow>
     (\<exists>e \<in> set (g_edges (getGraph sk)). \<not> isVirtual sk e
        \<and> ((m (source e), m (target e)) = (u, v) \<or> (m (source e), m (target e)) = (v, u)))"

definition virtual_from :: "Skeleton \<Rightarrow> sk2orig_map \<Rightarrow> int \<Rightarrow> int \<Rightarrow> bool" where
  "virtual_from sk m u v \<longleftrightarrow>
     (\<exists>e \<in> set (g_edges (getGraph sk)). isVirtual sk e \<and> (m (source e), m (target e)) = (u, v))"

text \<open>What the first loop of the S branch pushes, and what the second loop pushes.\<close>

definition S_virtual_pairs :: "Skeleton \<Rightarrow> sk2orig_map \<Rightarrow> pair_list" where
  "S_virtual_pairs sk m = fst (S_edges sk m (g_edges (getGraph sk)) ([], {}))"

definition S_scan_pairs :: "Skeleton \<Rightarrow> sk2orig_map \<Rightarrow> pair_list" where
  "S_scan_pairs sk m =
     S_scan_i (map m (g_nodes (getGraph sk)))
       (snd (S_edges sk m (g_edges (getGraph sk)) ([], {})))
       (length (g_nodes (getGraph sk)))
       [0 ..< length (g_nodes (getGraph sk)) - 1] []"

subsection \<open>Two-vertex cuts of a block\<close>

text \<open>
  The block without two of its nodes, and the number of connected pieces of a graph:
  every node starts as a piece of its own and every edge joins the pieces of its ends.
\<close>

definition remove_two :: "Graph \<Rightarrow> node \<Rightarrow> node \<Rightarrow> Graph" where
  "remove_two G u v =
     \<lparr>g_nodes = filter (\<lambda>n. n \<noteq> u \<and> n \<noteq> v) (g_nodes G),
      g_edges = filter (\<lambda>e. source e \<noteq> u \<and> source e \<noteq> v \<and> target e \<noteq> u \<and> target e \<noteq> v)
                  (g_edges G)\<rparr>"

definition join_pieces :: "edge \<Rightarrow> node list list \<Rightarrow> node list list" where
  "join_pieces e cs =
     (let touched = filter (\<lambda>c. source e \<in> set c \<or> target e \<in> set c) cs;
          rest = filter (\<lambda>c. source e \<notin> set c \<and> target e \<notin> set c) cs
      in if touched = [] then rest else concat touched # rest)"

definition pieces :: "Graph \<Rightarrow> nat" where
  "pieces G = length (fold join_pieces (g_edges G) (map (\<lambda>n. [n]) (g_nodes G)))"

definition two_vertex_cut :: "Graph \<Rightarrow> node \<Rightarrow> node \<Rightarrow> bool" where
  "two_vertex_cut G u v = (2 \<le> pieces (remove_two G u v))"

subsection \<open>The output with every pair attributed to its own block\<close>

text \<open>
  The member set of block \<open>n\<close>, its pruned copy, and whether it passes the test that
  guards the SPQR construction.
\<close>

definition block_members :: "OGDF \<Rightarrow> BCTree \<Rightarrow> node \<Rightarrow> int list" where
  "block_members ogdf bc n = fst (getBiComponent (GraphCopy_init ogdf (auxiliaryGraph bc)) bc n)"

definition block_copy :: "OGDF \<Rightarrow> BCTree \<Rightarrow> node \<Rightarrow> GraphCopy" where
  "block_copy ogdf bc n = snd (getBiComponent (GraphCopy_init ogdf (auxiliaryGraph bc)) bc n)"

definition eligible :: "OGDF \<Rightarrow> BCTree \<Rightarrow> node \<Rightarrow> bool" where
  "eligible ogdf bc n \<longleftrightarrow>
     isBiconnected ogdf (gc_graph (block_copy ogdf bc n))
     \<and> 2 < int (length (g_edges (gc_graph (block_copy ogdf bc n))))
     \<and> isLoopFree ogdf (gc_graph (block_copy ogdf bc n))"

text \<open>
  The pairs found in block \<open>n\<close> alone: the shortcut and the SPQR loop, started on an
  empty pair list with the node map \<open>m\<close> left by the blocks before.
\<close>

definition block_run :: "OGDF \<Rightarrow> BCTree \<Rightarrow> node \<Rightarrow> sk2orig_map \<Rightarrow> state" where
  "block_run ogdf bc n m =
     (let GC = block_copy ogdf bc n;
          spqr = StaticSPQRTree_init ogdf GC
      in spqr_nodes bc GC spqr (g_nodes (tree spqr))
           \<lparr>memberNodes = block_members ogdf bc n, sk2orig = m,
            pairs = getCutVertexPair GC n bc [], ofile = []\<rparr>)"

text \<open>
  The member contigs of block \<open>n\<close>, said without the loops of \<open>getBiComponent\<close>: the
  edges of the fresh copy that are no copy of an edge outside the block, and the contigs
  of the nodes of the auxiliary graph whose copy is an end point of such an edge.
\<close>

definition block_edges :: "OGDF \<Rightarrow> BCTree \<Rightarrow> node \<Rightarrow> edge list" where
  "block_edges ogdf bc n =
     filter (\<lambda>x. \<forall>e \<in> set (g_edges (auxiliaryGraph bc)).
                    e \<notin> set (hEdges bc n) \<longrightarrow>
                      x \<noteq> copy_edge (GraphCopy_init ogdf (auxiliaryGraph bc)) e)
       (g_edges (gc_graph (GraphCopy_init ogdf (auxiliaryGraph bc))))"

definition block_contigs :: "OGDF \<Rightarrow> BCTree \<Rightarrow> node \<Rightarrow> int set" where
  "block_contigs ogdf bc n =
     bc_original bc `
       {v \<in> set (g_nodes (auxiliaryGraph bc)).
          \<exists>x \<in> set (block_edges ogdf bc n).
            source x = copy_node (GraphCopy_init ogdf (auxiliaryGraph bc)) v
            \<or> target x = copy_node (GraphCopy_init ogdf (auxiliaryGraph bc)) v}"

text \<open>
  The records of one BC-tree when each block hands over the pairs found in it together
  with its own member contigs in ascending order, with no variable shared between blocks
  but the node map; and the same for the list of BC-trees.
\<close>

fun attributed_records ::
  "OGDF \<Rightarrow> BCTree \<Rightarrow> node list \<Rightarrow> sk2orig_map
    \<Rightarrow> ((int \<times> int) \<times> int list) list \<times> sk2orig_map" where
  "attributed_records ogdf bc [] m = ([], m)"
| "attributed_records ogdf bc (n # ns) m =
     (if typeOfBNode bc n = 0 \<and> eligible ogdf bc n then
        (case attributed_records ogdf bc ns (sk2orig (block_run ogdf bc n m)) of
           (rest, m') \<Rightarrow>
             (map (\<lambda>p. (p, sorted_list_of_set (block_contigs ogdf bc n)))
                (pairs (block_run ogdf bc n m)) @ rest, m'))
      else attributed_records ogdf bc ns m)"

fun attributed_output ::
  "OGDF \<Rightarrow> BCTree list \<Rightarrow> sk2orig_map \<Rightarrow> ((int \<times> int) \<times> int list) list" where
  "attributed_output ogdf [] m = []"
| "attributed_output ogdf (bc # bcs) m =
     (if numberOfBComps bc = 0 then attributed_output ogdf bcs m
      else (case attributed_records ogdf bc (g_nodes (bcTree bc)) m of
              (rs, m') \<Rightarrow> rs @ attributed_output ogdf bcs m'))"

subsection \<open>The far ends of the BC-tree edges at a block\<close>



section \<open>Concrete inputs\<close>

definition mk_edge :: "int \<Rightarrow> node \<Rightarrow> node \<Rightarrow> edge" where
  "mk_edge i s t = \<lparr>e_index = i, source = s, target = t\<rparr>"

text \<open>A skeleton that is a cycle of four nodes; its first edge is virtual.\<close>

definition cycle4 :: Skeleton where
  "cycle4 =
     \<lparr>getGraph =
        \<lparr>g_nodes = [0, 1, 2, 3],
         g_edges = [mk_edge 0 0 1, mk_edge 1 1 2, mk_edge 2 2 3, mk_edge 3 3 0]\<rparr>,
      isVirtual = (\<lambda>e. e_index e = 0),
      sk_original = (\<lambda>n. n)\<rparr>"

text \<open>
  A chain of four blocks over the contigs 1 to 9: the cycle 1-2-3-4, the bridge 3-5,
  the cycle 5-6-7-8 and the bridge 7-9; the cut vertices are 3, 5 and 7. In the
  BC-tree the nodes 0 to 3 are the blocks, in this order, and 4, 5, 6 the cut vertices;
  every edge points from a child to its parent and block 0 is the root. The auxiliary
  graph holds a copy of every block (nodes 0 to 11) and one isolated node per cut vertex
  (12, 13, 14). \<open>cutVertex\<close> is given for the calls the program makes, with both
  arguments the same C-node.
\<close>

definition chain_H :: Graph where
  "chain_H =
     \<lparr>g_nodes = [0, 1, 2, 3, 4, 5, 6, 7, 8, 9, 10, 11, 12, 13, 14],
      g_edges = [mk_edge 0 0 1, mk_edge 1 1 2, mk_edge 2 2 3, mk_edge 3 3 0,
                 mk_edge 4 4 5,
                 mk_edge 5 6 7, mk_edge 6 7 8, mk_edge 7 8 9, mk_edge 8 9 6,
                 mk_edge 9 10 11]\<rparr>"

definition chain_bc :: BCTree where
  "chain_bc =
     \<lparr>bcTree =
        \<lparr>g_nodes = [0, 4, 1, 5, 2, 6, 3],
         g_edges = [mk_edge 0 4 0, mk_edge 1 1 4, mk_edge 2 5 1,
                    mk_edge 3 2 5, mk_edge 4 6 2, mk_edge 5 3 6]\<rparr>,
      typeOfBNode = (\<lambda>v. if v \<le> 3 then 0 else 1),
      cutVertex = (\<lambda>u v. if u = v \<and> 4 \<le> u \<and> u \<le> 6 then Some (u + 8) else None),
      bc_original = (\<lambda>h. [1, 2, 3, 4, 3, 5, 5, 6, 7, 8, 7, 9, 3, 5, 7] ! nat h),
      auxiliaryGraph = chain_H,
      hEdges = (\<lambda>v. if v = 0 then [mk_edge 0 0 1, mk_edge 1 1 2, mk_edge 2 2 3, mk_edge 3 3 0]
                     else if v = 1 then [mk_edge 4 4 5]
                     else if v = 2 then [mk_edge 5 6 7, mk_edge 6 7 8, mk_edge 7 8 9, mk_edge 8 9 6]
                     else if v = 3 then [mk_edge 9 10 11]
                     else []),
      numberOfBComps = 4\<rparr>"

text \<open>A copy that keeps the indices of its original.\<close>

definition plain_copy :: "Graph \<Rightarrow> GraphCopy" where
  "plain_copy H =
     \<lparr>gc_graph = H, gc_original = (\<lambda>v. v), copy_node = (\<lambda>v. v), copy_edge = (\<lambda>e. e)\<rparr>"

text \<open>
  The library on this input: every pruned copy is biconnected, and the SPQR-tree of
  either cycle is a single Series node whose skeleton is the cycle itself, without a
  virtual edge.
\<close>

definition chain_ogdf :: OGDF where
  "chain_ogdf =
     \<lparr>GraphCopy_init = plain_copy,
      isBiconnected = (\<lambda>G. True),
      isLoopFree = loop_free,
      StaticSPQRTree_init =
        (\<lambda>GC. \<lparr>tree = \<lparr>g_nodes = [0], g_edges = []\<rparr>,
               typeOf = (\<lambda>n. 0),
               skeleton = (\<lambda>n. \<lparr>getGraph = getGraph cycle4, isVirtual = (\<lambda>e. False),
                                 sk_original = (\<lambda>v. hd (g_nodes (gc_graph GC)) + v)\<rparr>)\<rparr>)\<rparr>"

definition chain_names :: "int \<Rightarrow> string" where
  "chain_names i = ''c'' @ [''0123456789'' ! nat i]"


text \<open>
  Lines of the link file, each given by what its extraction yields; \<open>mk_link\<close> fills
  the fields that the program never reads.
\<close>

definition mk_link :: "string \<Rightarrow> string \<Rightarrow> link" where
  "mk_link x y =
     \<lparr>contig_a = x, contig_a_orientation = ''B'', contig_b = y, contig_b_orientation = ''E'',
      mean = 0, stdev = 1, bundle_size = 1\<rparr>"

definition parsed :: "link option \<Rightarrow> link option" where
  "parsed line = line"

definition repeated_links :: "link option list" where
  "repeated_links =
     [Some (mk_link ''A'' ''B''), Some (mk_link ''A'' ''B''), Some (mk_link ''B'' ''B'')]"

definition broken_file :: "link option list" where
  "broken_file =
     [Some (mk_link ''A'' ''B''), Some (mk_link ''B'' ''C''), None, Some (mk_link ''C'' ''D'')]"

text \<open>
  The links A-B, B-A, B-C, C-A: one block, a triangle whose side A-B is doubled. Its
  SPQR-tree has a Parallel node for the doubled side and a Series node for the triangle,
  in which the side A-B is the virtual edge; \<open>doubled_S\<close> is that Series skeleton and
  its node \<open>n\<close> stands for the contig \<open>n + 1\<close>.
\<close>

definition doubled_links :: "link option list" where
  "doubled_links =
     [Some (mk_link ''A'' ''B''), Some (mk_link ''B'' ''A''),
      Some (mk_link ''B'' ''C''), Some (mk_link ''C'' ''A'')]"

definition doubled_block :: Graph where
  "doubled_block =
     \<lparr>g_nodes = [1, 2, 3],
      g_edges = [mk_edge 0 1 2, mk_edge 1 2 1, mk_edge 2 2 3, mk_edge 3 3 1]\<rparr>"

definition doubled_S :: Skeleton where
  "doubled_S =
     \<lparr>getGraph = \<lparr>g_nodes = [0, 1, 2],
                   g_edges = [mk_edge 0 0 1, mk_edge 1 1 2, mk_edge 2 2 0]\<rparr>,
      isVirtual = (\<lambda>e. e_index e = 0),
      sk_original = (\<lambda>n. n)\<rparr>"

text \<open>The block of the cycle 1-2-3-4, and a Parallel skeleton with three virtual edges.\<close>

definition square_block :: Graph where
  "square_block =
     \<lparr>g_nodes = [1, 2, 3, 4],
      g_edges = [mk_edge 0 1 2, mk_edge 1 2 3, mk_edge 2 3 4, mk_edge 3 4 1]\<rparr>"

definition bond4 :: Skeleton where
  "bond4 =
     \<lparr>getGraph = \<lparr>g_nodes = [0, 1],
                   g_edges = [mk_edge 0 0 1, mk_edge 1 0 1, mk_edge 2 1 0, mk_edge 3 0 1]\<rparr>,
      isVirtual = (\<lambda>e. e_index e \<noteq> 0),
      sk_original = (\<lambda>n. n)\<rparr>"

section \<open>Properties\<close>

subsection \<open>Unfolding the concrete inputs\<close>

lemmas chain_eval = chain_ogdf_def plain_copy_def chain_names_def chain_bc_def chain_H_def
  initial_state_def bc_node_body_def getBiComponent_def searchList_def mk_edge_def
  delEdge_def delNode_def degree_def set_insert_def loop_free_def getCutVertexPair_def
  inEdges_def outEdges_def getTypeString_def findTwoVertexCuts_def original_def cycle4_def
  output_line_def upt_rec block_members_def block_copy_def eligible_def block_run_def tab_def

lemmas build_eval = build_graph_def parsed_def mk_link_def initial_build_def
  register_contig_def newNode_def newEdge_def

subsection \<open>The Parallel rule\<close>

lemma P_edges_counted:
  "P_edges sk m es 1 ps =
     (case filter (isVirtual sk) es of
        [] \<Rightarrow> ps
      | v # _ \<Rightarrow> ps @ [(m (source v), m (target v))])"
  by (induction es) auto

lemma P_edges_fresh:
  "P_edges sk m es 0 ps =
     (case filter (isVirtual sk) es of
        v1 # v2 # _ \<Rightarrow> ps @ [(m (source v2), m (target v2))]
      | _ \<Rightarrow> ps)"
  by (induction es) (auto simp: P_edges_counted split: list.splits)

text \<open>
  C7. For a Parallel skeleton, the extractor pushes exactly one pair when the skeleton
  has two or more virtual edges, the pair of the second virtual edge in edge order, and
  pushes nothing when it has fewer than two; more than two virtual edges never give more
  than that one pair.
\<close>

theorem C7_parallel_one_pair:
  "findTwoVertexCuts sk m ''P'' ps =
     (if 2 \<le> length (filter (isVirtual sk) (g_edges (getGraph sk)))
      then ps @ [(m (source (filter (isVirtual sk) (g_edges (getGraph sk)) ! 1)),
                     m (target (filter (isVirtual sk) (g_edges (getGraph sk)) ! 1)))]
      else ps)"
proof -
  let ?vs = "filter (isVirtual sk) (g_edges (getGraph sk))"
  have run: "findTwoVertexCuts sk m ''P'' ps
               = P_edges sk m (g_edges (getGraph sk)) 0 ps"
    by (simp add: findTwoVertexCuts_def)
  show ?thesis
  proof (cases ?vs)
    case Nil
    then show ?thesis by (simp add: run P_edges_fresh)
  next
    case (Cons v1 rest)
    then show ?thesis by (cases rest) (simp_all add: run P_edges_fresh)
  qed
qed

text \<open>A Parallel skeleton with three virtual edges after a real one: one pair, of the second.\<close>

theorem C7_witness:
  "findTwoVertexCuts bond4 (\<lambda>n. n + 1) ''P'' [] = [(2, 1)]"
  using C7_parallel_one_pair [of bond4 "\<lambda>n. n + 1" "[]"]
  by (simp add: bond4_def mk_edge_def)

subsection \<open>The Series rule\<close>

lemma R_edges_eq:
  "R_edges sk m es ps = ps @ map (\<lambda>e. (m (source e), m (target e))) (filter (isVirtual sk) es)"
  by (induction es arbitrary: ps) auto

lemma S_edges_eq:
  "S_edges sk m es (ps, adjacent) =
     (ps @ map (\<lambda>e. (m (source e), m (target e))) (filter (isVirtual sk) es),
      adjacent \<union> (\<lambda>e. (m (target e), m (source e))) ` set es
               \<union> (\<lambda>e. (m (source e), m (target e))) ` {e \<in> set es. \<not> isVirtual sk e})"
  by (induction es arbitrary: ps adjacent) (auto simp: Let_def)

lemma S_scan_j_eq:
  "S_scan_j a adj i js ps =
     ps @ map (\<lambda>j. (a ! i, a ! j))
               (filter (\<lambda>j. (a ! i, a ! j) \<notin> adj \<or> (a ! j, a ! i) \<notin> adj) js)"
  by (induction js arbitrary: ps) auto

lemma S_scan_i_eq:
  "S_scan_i a adj n is ps =
     ps @ concat (map (\<lambda>i. map (\<lambda>j. (a ! i, a ! j))
               (filter (\<lambda>j. (a ! i, a ! j) \<notin> adj \<or> (a ! j, a ! i) \<notin> adj) [i + 1 ..< n])) is)"
  by (induction "is" arbitrary: ps) (auto simp: S_scan_j_eq)

lemma S_scan_i_append: "S_scan_i a adj n is ps = ps @ S_scan_i a adj n is []"
  by (simp add: S_scan_i_eq)

lemma S_scan_i_mem:
  assumes "i < j" "j < n" "(a ! i, a ! j) \<notin> adj \<or> (a ! j, a ! i) \<notin> adj"
  shows "(a ! i, a ! j) \<in> set (S_scan_i a adj n [0 ..< n - 1] ps)"
proof -
  have i: "i \<in> set [0 ..< n - 1]" using assms by auto
  have j: "j \<in> set [i + 1 ..< n]" using assms by auto
  show ?thesis unfolding S_scan_i_eq using i j assms(3) by auto
qed

lemma filter_hit: "x \<in> set xs \<Longrightarrow> P x \<Longrightarrow> 1 \<le> length (filter P xs)"
  by (induction xs) auto

lemma S_virtual_pairs_eq:
  "S_virtual_pairs sk m
     = map (\<lambda>e. (m (source e), m (target e))) (filter (isVirtual sk) (g_edges (getGraph sk)))"
  by (simp add: S_virtual_pairs_def S_edges_eq)

lemma S_adjacent_eq:
  "snd (S_edges sk m es ([], {})) =
     (\<lambda>e. (m (target e), m (source e))) ` set es
       \<union> (\<lambda>e. (m (source e), m (target e))) ` {e \<in> set es. \<not> isVirtual sk e}"
  by (simp add: S_edges_eq)

lemma findTwoVertexCuts_S:
  "findTwoVertexCuts sk m ''S'' ps = ps @ S_virtual_pairs sk m @ S_scan_pairs sk m"
proof -
  obtain vps adj where run: "S_edges sk m (g_edges (getGraph sk)) ([], {}) = (vps, adj)"
    by (cases "S_edges sk m (g_edges (getGraph sk)) ([], {})")
  have run': "S_edges sk m (g_edges (getGraph sk)) (ps, {}) = (ps @ vps, adj)"
    using run by (simp add: S_edges_eq)
  show ?thesis
    unfolding findTwoVertexCuts_def S_virtual_pairs_def S_scan_pairs_def run run' Let_def
    by (simp add: S_scan_i_append [of _ _ _ _ "ps @ vps"])
qed

lemma adjacent_mem:
  "(u, v) \<in> snd (S_edges sk m (g_edges (getGraph sk)) ([], {}))
     \<longleftrightarrow> real_joined sk m u v \<or> virtual_from sk m v u"
  unfolding S_adjacent_eq real_joined_def virtual_from_def by auto

text \<open>
  C6. For a Series skeleton the extractor pushes the pair of every virtual edge, and it
  pushes every pair of skeleton nodes, taken in node order, that no real edge joins in
  either direction. Nodes are compared through \<open>sk2orig\<close>, as the code stores them.
\<close>

theorem C6_series_pairs:
  "(\<forall>e \<in> set (g_edges (getGraph sk)). isVirtual sk e \<longrightarrow>
      (m (source e), m (target e)) \<in> set (findTwoVertexCuts sk m ''S'' ps))
   \<and> (\<forall>i j. i < j \<and> j < length (g_nodes (getGraph sk))
         \<and> \<not> real_joined sk m (m (g_nodes (getGraph sk) ! i)) (m (g_nodes (getGraph sk) ! j))
       \<longrightarrow> (m (g_nodes (getGraph sk) ! i), m (g_nodes (getGraph sk) ! j))
             \<in> set (findTwoVertexCuts sk m ''S'' ps))"
proof (intro conjI ballI allI impI)
  fix e assume "e \<in> set (g_edges (getGraph sk))" "isVirtual sk e"
  then have "(m (source e), m (target e)) \<in> set (S_virtual_pairs sk m)"
    unfolding S_virtual_pairs_eq by auto
  then show "(m (source e), m (target e)) \<in> set (findTwoVertexCuts sk m ''S'' ps)"
    by (simp add: findTwoVertexCuts_S)
next
  fix i j
  let ?ns = "g_nodes (getGraph sk)"
  let ?a = "map m ?ns"
  let ?adj = "snd (S_edges sk m (g_edges (getGraph sk)) ([], {}))"
  assume h: "i < j \<and> j < length ?ns \<and> \<not> real_joined sk m (m (?ns ! i)) (m (?ns ! j))"
  then have ij: "i < j" "j < length ?ns" "i < length ?ns" by auto
  have ai: "?a ! i = m (?ns ! i)" and aj: "?a ! j = m (?ns ! j)" using ij by simp_all
  show "(m (?ns ! i), m (?ns ! j)) \<in> set (findTwoVertexCuts sk m ''S'' ps)"
  proof (cases "(?a ! i, ?a ! j) \<notin> ?adj \<or> (?a ! j, ?a ! i) \<notin> ?adj")
    case True
    from S_scan_i_mem [OF ij(1) ij(2) True]
    have "(?a ! i, ?a ! j) \<in> set (S_scan_pairs sk m)"
      unfolding S_scan_pairs_def .
    then show ?thesis unfolding findTwoVertexCuts_S ai aj by simp
  next
    case False
    then have "(?a ! j, ?a ! i) \<in> ?adj" by simp
    then have "virtual_from sk m (m (?ns ! i)) (m (?ns ! j))"
      using h unfolding adjacent_mem ai aj by (auto simp: real_joined_def)
    then have "(m (?ns ! i), m (?ns ! j)) \<in> set (S_virtual_pairs sk m)"
      unfolding S_virtual_pairs_eq virtual_from_def by force
    then show ?thesis by (simp add: findTwoVertexCuts_S)
  qed
qed

text \<open>On the cycle of four nodes: the virtual edge 0-1 and the diagonal 0-2.\<close>

theorem C6_witness:
  "mk_edge 0 0 1 \<in> set (g_edges (getGraph cycle4))
   \<and> isVirtual cycle4 (mk_edge 0 0 1)
   \<and> (1, 2) \<in> set (findTwoVertexCuts cycle4 (\<lambda>n. n + 1) ''S'' [])
   \<and> \<not> real_joined cycle4 (\<lambda>n. n + 1) 1 3
   \<and> (1, 3) \<in> set (findTwoVertexCuts cycle4 (\<lambda>n. n + 1) ''S'' [])"
proof -
  let ?m = "\<lambda>n::int. n + 1"
  have e: "mk_edge 0 0 1 \<in> set (g_edges (getGraph cycle4))"
    and v: "isVirtual cycle4 (mk_edge 0 0 1)"
    by (simp_all add: cycle4_def mk_edge_def)
  have nr: "\<not> real_joined cycle4 ?m 1 3"
    by (simp add: real_joined_def cycle4_def mk_edge_def)
  have ij: "(0::nat) < 2 \<and> 2 < length (g_nodes (getGraph cycle4))
              \<and> \<not> real_joined cycle4 ?m (?m (g_nodes (getGraph cycle4) ! 0))
                                           (?m (g_nodes (getGraph cycle4) ! 2))"
    using nr by (simp add: cycle4_def)
  note t = C6_series_pairs [of cycle4 ?m "[]"]
  have a: "(1, 2) \<in> set (findTwoVertexCuts cycle4 ?m ''S'' [])"
    using t [THEN conjunct1, rule_format, OF e v] by (simp add: mk_edge_def)
  have b: "(1, 3) \<in> set (findTwoVertexCuts cycle4 ?m ''S'' [])"
    using t [THEN conjunct2, rule_format, OF ij] by (simp add: cycle4_def)
  show ?thesis using e v nr a b by blast
qed

text \<open>
  C10. In a Series skeleton, the pair of a virtual edge whose end points are joined by
  no real edge is pushed twice: by the loop over the edges, and again by the scan over
  the node pairs, in node order. The end points are two different nodes of the skeleton
  and, the skeleton being a cycle, no virtual edge runs between them the other way:
  then one direction is missing from \<open>adjacent\<close>, which is enough for the scan.
\<close>

theorem C10_virtual_pair_twice:
  assumes "e \<in> set (g_edges (getGraph sk))" and "isVirtual sk e"
    and "source e \<in> set (g_nodes (getGraph sk))" and "target e \<in> set (g_nodes (getGraph sk))"
    and "m (source e) \<noteq> m (target e)"
    and "\<not> real_joined sk m (m (source e)) (m (target e))"
    and "\<not> virtual_from sk m (m (target e)) (m (source e))"
  shows "findTwoVertexCuts sk m ''S'' ps = ps @ S_virtual_pairs sk m @ S_scan_pairs sk m
     \<and> (m (source e), m (target e)) \<in> set (S_virtual_pairs sk m)
     \<and> ((m (source e), m (target e)) \<in> set (S_scan_pairs sk m)
         \<or> (m (target e), m (source e)) \<in> set (S_scan_pairs sk m))
     \<and> 2 \<le> length (filter (\<lambda>p. p = (m (source e), m (target e))
                                   \<or> p = (m (target e), m (source e)))
                     (S_virtual_pairs sk m @ S_scan_pairs sk m))"
proof -
  let ?ns = "g_nodes (getGraph sk)"
  let ?a = "map m ?ns"
  let ?adj = "snd (S_edges sk m (g_edges (getGraph sk)) ([], {}))"
  let ?u = "m (source e)" and ?v = "m (target e)"
  have first: "(?u, ?v) \<in> set (S_virtual_pairs sk m)"
    unfolding S_virtual_pairs_eq using assms(1,2) by auto
  have absent: "(?u, ?v) \<notin> ?adj"
    unfolding adjacent_mem using assms(6,7) by simp
  obtain i where i: "i < length ?ns" "?ns ! i = source e"
    using assms(3) by (auto simp: in_set_conv_nth)
  obtain j where j: "j < length ?ns" "?ns ! j = target e"
    using assms(4) by (auto simp: in_set_conv_nth)
  have "i \<noteq> j" using i j assms(5) by auto
  then consider "i < j" | "j < i" by linarith
  then have second: "(?u, ?v) \<in> set (S_scan_pairs sk m) \<or> (?v, ?u) \<in> set (S_scan_pairs sk m)"
  proof cases
    case 1
    have "(?a ! i, ?a ! j) \<notin> ?adj \<or> (?a ! j, ?a ! i) \<notin> ?adj"
      using absent i j by simp
    from S_scan_i_mem [OF 1 j(1) this]
    have "(?a ! i, ?a ! j) \<in> set (S_scan_pairs sk m)" unfolding S_scan_pairs_def .
    then show ?thesis using i j by simp
  next
    case 2
    have "(?a ! j, ?a ! i) \<notin> ?adj \<or> (?a ! i, ?a ! j) \<notin> ?adj"
      using absent i j by simp
    from S_scan_i_mem [OF 2 i(1) this]
    have "(?a ! j, ?a ! i) \<in> set (S_scan_pairs sk m)" unfolding S_scan_pairs_def .
    then show ?thesis using i j by simp
  qed
  have "1 \<le> length (filter (\<lambda>p. p = (?u, ?v) \<or> p = (?v, ?u)) (S_virtual_pairs sk m))"
    using first by (intro filter_hit [of "(?u, ?v)"]) simp_all
  moreover have "1 \<le> length (filter (\<lambda>p. p = (?u, ?v) \<or> p = (?v, ?u)) (S_scan_pairs sk m))"
  proof -
    from second show ?thesis
    proof
      assume "(?u, ?v) \<in> set (S_scan_pairs sk m)"
      then show ?thesis by (intro filter_hit [of "(?u, ?v)"]) simp_all
    next
      assume "(?v, ?u) \<in> set (S_scan_pairs sk m)"
      then show ?thesis by (intro filter_hit [of "(?v, ?u)"]) simp_all
    qed
  qed
  ultimately have "2 \<le> length (filter (\<lambda>p. p = (?u, ?v) \<or> p = (?v, ?u))
                              (S_virtual_pairs sk m @ S_scan_pairs sk m))"
    by simp
  with first second show ?thesis by (simp add: findTwoVertexCuts_S)
qed

text \<open>On the cycle of four nodes, for its virtual edge.\<close>

theorem C10_witness:
  "findTwoVertexCuts cycle4 (\<lambda>n. n + 1) ''S'' []
     = S_virtual_pairs cycle4 (\<lambda>n. n + 1) @ S_scan_pairs cycle4 (\<lambda>n. n + 1)
   \<and> S_virtual_pairs cycle4 (\<lambda>n. n + 1) = [(1, 2)]
   \<and> S_scan_pairs cycle4 (\<lambda>n. n + 1) = [(1, 2), (1, 3), (2, 4)]"
proof -
  let ?m = "\<lambda>n::int. n + 1"
  let ?e = "mk_edge 0 0 1"
  have h1: "?e \<in> set (g_edges (getGraph cycle4))" and h2: "isVirtual cycle4 ?e"
    and h3: "source ?e \<in> set (g_nodes (getGraph cycle4))"
    and h4: "target ?e \<in> set (g_nodes (getGraph cycle4))"
    and h5: "?m (source ?e) \<noteq> ?m (target ?e)"
    by (simp_all add: cycle4_def mk_edge_def)
  have h6: "\<not> real_joined cycle4 ?m (?m (source ?e)) (?m (target ?e))"
    by (simp add: real_joined_def cycle4_def mk_edge_def)
  have h7: "\<not> virtual_from cycle4 ?m (?m (target ?e)) (?m (source ?e))"
    by (simp add: virtual_from_def cycle4_def mk_edge_def)
  have v: "S_virtual_pairs cycle4 ?m = [(1, 2)]"
    by (simp add: S_virtual_pairs_def cycle4_def mk_edge_def)
  have s: "S_scan_pairs cycle4 ?m = [(1, 2), (1, 3), (2, 4)]"
    by (simp add: S_scan_pairs_def cycle4_def mk_edge_def upt_rec)
  from C10_virtual_pair_twice [OF h1 h2 h3 h4 h5 h6 h7, of "[]"]
  show ?thesis using v s by simp
qed

subsection \<open>The switch of getTypeString\<close>

text \<open>
  The three values of the library's node type give the three letters. The string
  \<open>''unkown''\<close> is what the switch leaves for any other value, and \<open>findTwoVertexCuts\<close>
  has no branch for it; no statement of either function raises or exits.
\<close>

lemma getTypeString_letters:
  "getTypeString 0 = ''S''" "getTypeString 1 = ''P''" "getTypeString 2 = ''R''"
  by (simp_all add: getTypeString_def)

lemma getTypeString_default: "type \<notin> {0, 1, 2} \<Longrightarrow> getTypeString type = ''unkown''"
  by (simp add: getTypeString_def)

lemma findTwoVertexCuts_no_branch: "findTwoVertexCuts sk m ''unkown'' ps = ps"
  by (simp add: findTwoVertexCuts_def)

subsection \<open>Pairs that are no two-vertex cut\<close>

lemma square_diagonal_is_cut:
  "two_vertex_cut square_block 1 3 \<and> \<not> two_vertex_cut square_block 1 2"
  by (simp add: square_block_def mk_edge_def
      two_vertex_cut_def pieces_def remove_two_def join_pieces_def)

text \<open>
  C5. The claim is that every pair of the Rigid and the Series rule disconnects its
  block. For the links A-B, B-A, B-C, C-A the graph is the block \<open>doubled_block\<close>;
  the Series rule pushes the pair (A, B) of the virtual edge, twice, and the block
  without A and B is the single node C: one piece.
\<close>

theorem C5_doubled_edge_pair_is_no_cut:
  "map_sum (\<lambda>err. err) graph (build_graph parsed doubled_links) = Inr doubled_block
   \<and> findTwoVertexCuts doubled_S (\<lambda>n. n + 1) ''S'' [] = [(1, 2), (1, 2)]
   \<and> pieces (remove_two doubled_block 1 2) = 1
   \<and> \<not> two_vertex_cut doubled_block 1 2"
  by (simp add: findTwoVertexCuts_def doubled_S_def doubled_block_def doubled_links_def
      mk_edge_def upt_rec two_vertex_cut_def pieces_def remove_two_def join_pieces_def
      build_eval)

subsection \<open>The cut-vertex shortcut\<close>

lemma getCutVertexPair_two_incoming:
  assumes "typeOfBNode bc n = 0"
    and "inEdges (bcTree bc) n = [in1, in2]" and "outEdges (bcTree bc) n = []"
    and "cutVertex bc (source in1) (source in1) = Some v1"
    and "cutVertex bc (source in2) (source in2) = Some v2"
  shows "getCutVertexPair GC n bc ps
           = ps @ [(bc_original bc (gc_original GC v1), bc_original bc (gc_original GC v2))]"
  using assms by (simp add: getCutVertexPair_def)

lemma getCutVertexPair_in_and_out:
  assumes "typeOfBNode bc n = 0"
    and "inEdges (bcTree bc) n = [in1]" and "outEdges (bcTree bc) n = [out1]"
    and "cutVertex bc (target out1) (target out1) = Some v1"
    and "cutVertex bc (source in1) (source in1) = Some v2"
  shows "getCutVertexPair GC n bc ps
           = ps @ [(bc_original bc (gc_original GC v1), bc_original bc (gc_original GC v2))]"
  using assms by (simp add: getCutVertexPair_def)

lemma getCutVertexPair_two_outgoing:
  assumes "typeOfBNode bc n = 0"
    and "inEdges (bcTree bc) n = []" and "outEdges (bcTree bc) n = [out1, out2]"
    and "cutVertex bc (target out1) (target out1) = Some v1"
  shows "getCutVertexPair GC n bc ps
           = ps @ [(bc_original bc (gc_original GC v1), bc_original bc (gc_original GC v1))]"
  using assms by (simp add: getCutVertexPair_def)



subsection \<open>Building the graph\<close>

lemma first_seen_snoc:
  "first_seen (xs @ [x]) = (if x \<in> set xs then first_seen xs else first_seen xs @ [x])"
  by (simp add: first_seen_def)

lemma set_first_seen: "set (first_seen xs) = set xs"
  by (simp add: first_seen_def)

lemma distinct_first_seen: "distinct (first_seen xs)"
  by (simp add: first_seen_def)

lemma read_nodes_fold:
  "read_nodes parse lines st = fold register_contig (contig_names (parsed_prefix parse lines)) st"
  by (induction lines arbitrary: st) (auto simp: contig_names_def split: option.splits)

lemma reg_inv_initial: "reg_inv initial_build []"
  by (simp add: reg_inv_def initial_build_def first_seen_def)

lemma reg_inv_same:
  "first_seen xs = first_seen ys \<Longrightarrow> set xs = set ys \<Longrightarrow> reg_inv st xs = reg_inv st ys"
  by (simp add: reg_inv_def)

lemma reg_inv_step:
  assumes "reg_inv st names"
  shows "reg_inv (register_contig x st) (names @ [x])"
proof (cases "x \<in> set names")
  case True
  then obtain n where "revid2contig st x = Some n"
    using assms unfolding reg_inv_def by blast
  then have "register_contig x st = st" by (simp add: register_contig_def)
  moreover have "reg_inv st (names @ [x]) = reg_inv st names"
    using True by (intro reg_inv_same) (auto simp: first_seen_snoc)
  ultimately show ?thesis using assms by simp
next
  case False
  let ?k = "contig_id st"
  let ?n = "length (first_seen names)"
  let ?st = "register_contig x st"
  have none: "revid2contig st x = None" using assms False by (simp add: reg_inv_def)
  have nodes: "g_nodes (graph st) = map int [1 ..< Suc ?n]"
    and names: "map (intid2contig st) (g_nodes (graph st)) = first_seen names"
    and k: "?k = int ?n + 1"
    and edges: "g_edges (graph st) = []"
    and known: "\<forall>name \<in> set names. \<exists>n. revid2contig st name = Some n
            \<and> n \<in> set (g_nodes (graph st)) \<and> intid2contig st n = name"
    and unknown: "\<forall>name. name \<notin> set names \<longrightarrow> revid2contig st name = None"
    using assms unfolding reg_inv_def by blast+
  have fresh: "?k \<notin> set (g_nodes (graph st))" unfolding nodes k by auto
  have fs: "first_seen (names @ [x]) = first_seen names @ [x]"
    using False by (simp add: first_seen_snoc)
  have g: "g_nodes (graph ?st) = g_nodes (graph st) @ [?k]"
    and ge: "g_edges (graph ?st) = []"
    and i: "intid2contig ?st = (intid2contig st)(?k := x)"
    and r: "revid2contig ?st = (revid2contig st)(x \<mapsto> ?k)"
    and c: "contig_id ?st = ?k + 1"
    using none edges by (simp_all add: register_contig_def newNode_def)
  have 1: "map (intid2contig ?st) (g_nodes (graph ?st)) = first_seen (names @ [x])"
    using fresh names unfolding g i fs by (auto simp: map_eq_conv)
  have 2: "g_nodes (graph ?st) = map int [1 ..< Suc (length (first_seen (names @ [x])))]"
    unfolding g fs nodes k by simp
  have 3: "contig_id ?st = int (length (first_seen (names @ [x]))) + 1"
    unfolding c fs k by simp
  have 4: "\<forall>name. name \<notin> set (names @ [x]) \<longrightarrow> revid2contig ?st name = None"
    using unknown unfolding r by simp
  have 5: "\<forall>name \<in> set (names @ [x]). \<exists>n. revid2contig ?st name = Some n
            \<and> n \<in> set (g_nodes (graph ?st)) \<and> intid2contig ?st n = name"
  proof
    fix name assume "name \<in> set (names @ [x])"
    then consider "name = x" | "name \<noteq> x" "name \<in> set names" by auto
    then show "\<exists>n. revid2contig ?st name = Some n
            \<and> n \<in> set (g_nodes (graph ?st)) \<and> intid2contig ?st n = name"
    proof cases
      case 1
      then show ?thesis unfolding r g i by simp
    next
      case 2
      then obtain n where n: "revid2contig st name = Some n" "n \<in> set (g_nodes (graph st))"
        "intid2contig st n = name" using known by blast
      then have "n \<noteq> ?k" using fresh by auto
      then show ?thesis using n 2 unfolding r g i by simp
    qed
  qed
  show ?thesis unfolding reg_inv_def using 1 2 3 4 5 ge by blast
qed

lemma reg_inv_fold:
  "reg_inv st names \<Longrightarrow> reg_inv (fold register_contig xs st) (names @ xs)"
proof (induction xs arbitrary: st names)
  case Nil
  then show ?case by simp
next
  case (Cons x xs)
  from reg_inv_step [OF Cons.prems] have "reg_inv (register_contig x st) (names @ [x])" .
  from Cons.IH [OF this] show ?case by simp
qed

lemma reg_inv_read_nodes:
  "reg_inv (read_nodes parse lines initial_build) (contig_names (parsed_prefix parse lines))"
  using reg_inv_fold [OF reg_inv_initial] by (simp add: read_nodes_fold)


lemma read_edges_run:
  assumes "\<forall>l \<in> set (parsed_prefix parse lines).
             revid2contig st (contig_a l) \<noteq> None \<and> revid2contig st (contig_b l) \<noteq> None"
  shows "\<exists>st'. read_edges parse lines st = Inr st'
           \<and> g_nodes (graph st') = g_nodes (graph st)
           \<and> intid2contig st' = intid2contig st
           \<and> revid2contig st' = revid2contig st
           \<and> map (\<lambda>e. (source e, target e)) (g_edges (graph st'))
               = map (\<lambda>e. (source e, target e)) (g_edges (graph st))
                 @ map (\<lambda>l. (the (revid2contig st (contig_a l)), the (revid2contig st (contig_b l))))
                     (parsed_prefix parse lines)"
  using assms
proof (induction lines arbitrary: st)
  case Nil
  then show ?case by simp
next
  case (Cons line rest)
  show ?case
  proof (cases "parse line")
    case None
    then show ?thesis by simp
  next
    case (Some l)
    from Cons.prems Some obtain n1 n2 where
      n: "revid2contig st (contig_a l) = Some n1" "revid2contig st (contig_b l) = Some n2"
      by auto
    let ?st = "st\<lparr>graph := newEdge (graph st) n1 n2\<rparr>"
    have "\<forall>l \<in> set (parsed_prefix parse rest).
             revid2contig ?st (contig_a l) \<noteq> None \<and> revid2contig ?st (contig_b l) \<noteq> None"
      using Cons.prems Some by simp
    from Cons.IH [OF this] obtain st' where
      st': "read_edges parse rest ?st = Inr st'"
        "g_nodes (graph st') = g_nodes (graph ?st)"
        "intid2contig st' = intid2contig ?st"
        "revid2contig st' = revid2contig ?st"
        "map (\<lambda>e. (source e, target e)) (g_edges (graph st'))
               = map (\<lambda>e. (source e, target e)) (g_edges (graph ?st))
                 @ map (\<lambda>l. (the (revid2contig ?st (contig_a l)), the (revid2contig ?st (contig_b l))))
                     (parsed_prefix parse rest)"
      by blast
    have "read_edges parse (line # rest) st = Inr st'"
      using Some n st'(1) by simp
    moreover have "g_nodes (graph st') = g_nodes (graph st)"
      using st'(2) by (simp add: newEdge_def)
    moreover have "intid2contig st' = intid2contig st" "revid2contig st' = revid2contig st"
      using st'(3,4) by simp_all
    moreover have "map (\<lambda>e. (source e, target e)) (g_edges (graph st'))
               = map (\<lambda>e. (source e, target e)) (g_edges (graph st))
                 @ map (\<lambda>l. (the (revid2contig st (contig_a l)), the (revid2contig st (contig_b l))))
                     (parsed_prefix parse (line # rest))"
      using st'(5) Some n by (simp add: newEdge_def)
    ultimately show ?thesis by blast
  qed
qed

lemma build_graph_contents:
  "\<exists>st. build_graph parse lines = Inr st
     \<and> map (intid2contig st) (g_nodes (graph st)) = first_seen (contig_names (parsed_prefix parse lines))
     \<and> distinct (g_nodes (graph st))
     \<and> (\<forall>name \<in> set (contig_names (parsed_prefix parse lines)).
           \<exists>n. revid2contig st name = Some n \<and> n \<in> set (g_nodes (graph st))
               \<and> intid2contig st n = name)
     \<and> map (\<lambda>e. (intid2contig st (source e), intid2contig st (target e))) (g_edges (graph st))
         = map (\<lambda>l. (contig_a l, contig_b l)) (parsed_prefix parse lines)"
proof -
  let ?ls = "parsed_prefix parse lines"
  let ?st = "read_nodes parse lines initial_build"
  have inv: "reg_inv ?st (contig_names ?ls)" by (rule reg_inv_read_nodes)
  have known: "\<forall>name \<in> set (contig_names ?ls). \<exists>n. revid2contig ?st name = Some n
            \<and> n \<in> set (g_nodes (graph ?st)) \<and> intid2contig ?st n = name"
    and names: "map (intid2contig ?st) (g_nodes (graph ?st)) = first_seen (contig_names ?ls)"
    and nodes: "g_nodes (graph ?st) = map int [1 ..< Suc (length (first_seen (contig_names ?ls)))]"
    and noedge: "g_edges (graph ?st) = []"
    using inv unfolding reg_inv_def by blast+
  have ab: "\<forall>l \<in> set ?ls. contig_a l \<in> set (contig_names ?ls) \<and> contig_b l \<in> set (contig_names ?ls)"
    by (auto simp: contig_names_def)
  have "\<forall>l \<in> set ?ls. revid2contig ?st (contig_a l) \<noteq> None \<and> revid2contig ?st (contig_b l) \<noteq> None"
    using known ab by fastforce
  from read_edges_run [OF this] obtain st' where
    st': "read_edges parse lines ?st = Inr st'"
      "g_nodes (graph st') = g_nodes (graph ?st)"
      "intid2contig st' = intid2contig ?st"
      "revid2contig st' = revid2contig ?st"
      "map (\<lambda>e. (source e, target e)) (g_edges (graph st'))
         = map (\<lambda>e. (source e, target e)) (g_edges (graph ?st))
           @ map (\<lambda>l. (the (revid2contig ?st (contig_a l)), the (revid2contig ?st (contig_b l)))) ?ls"
    by blast
  have run: "build_graph parse lines = Inr st'" using st'(1) by (simp add: build_graph_def)
  have dist: "distinct (g_nodes (graph st'))"
    unfolding st'(2) nodes by (simp add: distinct_map inj_on_def)
  have named: "\<forall>l \<in> set ?ls. intid2contig ?st (the (revid2contig ?st (contig_a l))) = contig_a l
                \<and> intid2contig ?st (the (revid2contig ?st (contig_b l))) = contig_b l"
    using known ab by fastforce
  have "map (\<lambda>e. (intid2contig st' (source e), intid2contig st' (target e))) (g_edges (graph st'))
          = map (\<lambda>p. (intid2contig ?st (fst p), intid2contig ?st (snd p)))
              (map (\<lambda>e. (source e, target e)) (g_edges (graph st')))"
    by (simp add: st'(3))
  also have "\<dots> = map (\<lambda>l. (contig_a l, contig_b l)) ?ls"
    unfolding st'(5) noedge using named by simp
  finally have edges: "map (\<lambda>e. (intid2contig st' (source e), intid2contig st' (target e)))
      (g_edges (graph st')) = map (\<lambda>l. (contig_a l, contig_b l)) ?ls" .
  show ?thesis
    using run names known dist edges
    by (intro exI [of _ st']) (simp add: st'(2,3,4))
qed

lemma read_nodes_cut:
  "k < length lines \<Longrightarrow> parse (lines ! k) = None
     \<Longrightarrow> read_nodes parse lines st = read_nodes parse (take k lines) st"
proof (induction lines arbitrary: k st)
  case Nil
  then show ?case by simp
next
  case (Cons line rest)
  then show ?case by (cases k) (auto split: option.splits)
qed

lemma read_edges_cut:
  "k < length lines \<Longrightarrow> parse (lines ! k) = None
     \<Longrightarrow> read_edges parse lines st = read_edges parse (take k lines) st"
proof (induction lines arbitrary: k st)
  case Nil
  then show ?case by simp
next
  case (Cons line rest)
  then show ?case by (cases k) (auto split: option.splits)
qed

lemma parsed_prefix_all:
  "\<forall>i < length lines. parse (lines ! i) \<noteq> None
     \<Longrightarrow> parsed_prefix parse lines = map (\<lambda>line. the (parse line)) lines"
proof (induction lines)
  case Nil
  then show ?case by simp
next
  case (Cons line rest)
  have "parse line \<noteq> None" using Cons.prems by (auto dest: spec [of _ 0])
  moreover have "\<forall>i < length rest. parse (rest ! i) \<noteq> None"
    using Cons.prems by (auto dest: spec [of _ "Suc i" for i])
  ultimately show ?case using Cons.IH by auto
qed

text \<open>
  Against C9 as stated. The links A-B, A-B, B-B give two edges between the same nodes and an edge from a node
  to itself: the graph is not simple.
\<close>

theorem C9_counterexample:
  "(case build_graph parsed repeated_links of
      Inl err \<Rightarrow> False
    | Inr st \<Rightarrow> \<not> loop_free (graph st) \<and> \<not> no_parallel_edges (graph st)
                 \<and> \<not> simple_graph (graph st))"
  by (simp add: repeated_links_def build_eval loop_free_def no_parallel_edges_def simple_graph_def)

text \<open>
  C9, as the code has it. The graph has one node per contig name of the ingested
  records, in first-seen order; every such name resolves to its node; and the graph has
  one edge per record, in order, between the nodes of its two contigs. Nothing removes
  an edge from a node to itself or a second edge between two nodes. The second pass
  never meets a name without a node.
\<close>

theorem C9_one_node_per_name_one_edge_per_link:
  "\<exists>st. build_graph parse lines = Inr st
     \<and> map (intid2contig st) (g_nodes (graph st)) = first_seen (contig_names (parsed_prefix parse lines))
     \<and> distinct (g_nodes (graph st))
     \<and> (\<forall>name \<in> set (contig_names (parsed_prefix parse lines)).
           \<exists>n. revid2contig st name = Some n \<and> n \<in> set (g_nodes (graph st))
               \<and> intid2contig st n = name)
     \<and> map (\<lambda>e. (intid2contig st (source e), intid2contig st (target e))) (g_edges (graph st))
         = map (\<lambda>l. (contig_a l, contig_b l)) (parsed_prefix parse lines)"
  by (rule build_graph_contents)

text \<open>On the links A-B, A-B, B-B.\<close>

theorem C9_witness:
  "\<exists>st. build_graph parsed repeated_links = Inr st
     \<and> map (intid2contig st) (g_nodes (graph st)) = [''A'', ''B'']
     \<and> distinct (g_nodes (graph st))
     \<and> (\<exists>n. revid2contig st ''A'' = Some n \<and> n \<in> set (g_nodes (graph st)) \<and> intid2contig st n = ''A'')
     \<and> (\<exists>n. revid2contig st ''B'' = Some n \<and> n \<in> set (g_nodes (graph st)) \<and> intid2contig st n = ''B'')
     \<and> map (\<lambda>e. (intid2contig st (source e), intid2contig st (target e))) (g_edges (graph st))
         = [(''A'', ''B''), (''A'', ''B''), (''B'', ''B'')]"
proof -
  have pp: "parsed_prefix parsed repeated_links
              = [mk_link ''A'' ''B'', mk_link ''A'' ''B'', mk_link ''B'' ''B'']"
    by (simp add: repeated_links_def parsed_def)
  have cn: "contig_names [mk_link ''A'' ''B'', mk_link ''A'' ''B'', mk_link ''B'' ''B'']
              = [''A'', ''B'', ''A'', ''B'', ''B'', ''B'']"
    by (simp add: contig_names_def mk_link_def)
  have fs: "first_seen [''A'', ''B'', ''A'', ''B'', ''B'', ''B''] = [''A'', ''B'']"
    by (simp add: first_seen_def)
  have ab: "map (\<lambda>l. (contig_a l, contig_b l)) [mk_link ''A'' ''B'', mk_link ''A'' ''B'', mk_link ''B'' ''B'']
              = [(''A'', ''B''), (''A'', ''B''), (''B'', ''B'')]"
    by (simp add: mk_link_def)
  from C9_one_node_per_name_one_edge_per_link [of parsed repeated_links]
  obtain st where "build_graph parsed repeated_links = Inr st
    \<and> map (intid2contig st) (g_nodes (graph st)) = [''A'', ''B'']
    \<and> distinct (g_nodes (graph st))
    \<and> (\<forall>name \<in> set [''A'', ''B'', ''A'', ''B'', ''B'', ''B''].
       \<exists>n. revid2contig st name = Some n \<and> n \<in> set (g_nodes (graph st))
           \<and> intid2contig st n = name)
    \<and> map (\<lambda>e. (intid2contig st (source e), intid2contig st (target e))) (g_edges (graph st))
         = [(''A'', ''B''), (''A'', ''B''), (''B'', ''B'')]"
    unfolding pp cn fs ab ..
  then show ?thesis by (intro exI [of _ st]) simp
qed

text \<open>
  C8. When line \<open>k\<close> is the first line that does not parse, the graph is the graph
  built from the lines 1 to \<open>k - 1\<close> alone: its nodes are the contigs of those lines
  in first-seen order and its edges are the links of those lines, one per line. The
  lines from \<open>k\<close> on add nothing.
\<close>

theorem C8_ingestion_stops:
  assumes "1 \<le> k" and "k \<le> length lines"
    and "parse (lines ! (k - 1)) = None"
    and "\<forall>i < k - 1. parse (lines ! i) \<noteq> None"
  shows "\<exists>st. build_graph parse lines = Inr st
           \<and> build_graph parse (take (k - 1) lines) = Inr st
           \<and> map (intid2contig st) (g_nodes (graph st))
               = first_seen (contig_names (map (\<lambda>line. the (parse line)) (take (k - 1) lines)))
           \<and> map (\<lambda>e. (intid2contig st (source e), intid2contig st (target e))) (g_edges (graph st))
               = map (\<lambda>l. (contig_a l, contig_b l)) (map (\<lambda>line. the (parse line)) (take (k - 1) lines))"
proof -
  let ?pre = "take (k - 1) lines"
  have lt: "k - 1 < length lines" using assms(1,2) by simp
  have same: "build_graph parse lines = build_graph parse ?pre"
    unfolding build_graph_def
    using read_nodes_cut [of "k - 1" lines parse initial_build, OF lt assms(3)]
      read_edges_cut [of "k - 1" lines parse, OF lt assms(3)] by simp
  have "\<forall>i < length ?pre. parse (?pre ! i) \<noteq> None" using assms(4) by simp
  then have pp: "parsed_prefix parse ?pre = map (\<lambda>line. the (parse line)) ?pre"
    by (rule parsed_prefix_all)
  from build_graph_contents [of parse ?pre] obtain st where
    "build_graph parse ?pre = Inr st"
    "map (intid2contig st) (g_nodes (graph st)) = first_seen (contig_names (parsed_prefix parse ?pre))"
    "map (\<lambda>e. (intid2contig st (source e), intid2contig st (target e))) (g_edges (graph st))
         = map (\<lambda>l. (contig_a l, contig_b l)) (parsed_prefix parse ?pre)"
    by blast
  then show ?thesis using same unfolding pp by (intro exI [of _ st]) simp
qed

text \<open>A file of four lines whose third line does not parse.\<close>

theorem C8_witness:
  "parsed (broken_file ! 2) = None
   \<and> (\<exists>st. build_graph parsed broken_file = Inr st
         \<and> build_graph parsed [Some (mk_link ''A'' ''B''), Some (mk_link ''B'' ''C'')] = Inr st
         \<and> map (intid2contig st) (g_nodes (graph st)) = [''A'', ''B'', ''C'']
         \<and> map (\<lambda>e. (intid2contig st (source e), intid2contig st (target e))) (g_edges (graph st))
             = [(''A'', ''B''), (''B'', ''C'')])"
proof -
  have h1: "(1::nat) \<le> 3" and h2: "3 \<le> length broken_file"
    and h3: "parsed (broken_file ! (3 - 1)) = None"
    by (simp_all add: broken_file_def parsed_def)
  have h4: "\<forall>i < 3 - 1. parsed (broken_file ! i) \<noteq> None"
    by (simp add: broken_file_def parsed_def less_Suc_eq numeral_2_eq_2)
  have tk: "take (3 - 1) broken_file = [Some (mk_link ''A'' ''B''), Some (mk_link ''B'' ''C'')]"
    by (simp add: broken_file_def)
  have nm: "first_seen (contig_names (map (\<lambda>line. the (parsed line))
              [Some (mk_link ''A'' ''B''), Some (mk_link ''B'' ''C'')])) = [''A'', ''B'', ''C'']"
    by (simp add: first_seen_def contig_names_def parsed_def mk_link_def)
  have ed: "map (\<lambda>l. (contig_a l, contig_b l)) (map (\<lambda>line. the (parsed line))
              [Some (mk_link ''A'' ''B''), Some (mk_link ''B'' ''C'')]) = [(''A'', ''B''), (''B'', ''C'')]"
    by (simp add: parsed_def mk_link_def)
  from C8_ingestion_stops [OF h1 h2 h3 h4]
  have "\<exists>st. build_graph parsed broken_file = Inr st
         \<and> build_graph parsed [Some (mk_link ''A'' ''B''), Some (mk_link ''B'' ''C'')] = Inr st
         \<and> map (intid2contig st) (g_nodes (graph st)) = [''A'', ''B'', ''C'']
         \<and> map (\<lambda>e. (intid2contig st (source e), intid2contig st (target e))) (g_edges (graph st))
             = [(''A'', ''B''), (''B'', ''C'')]"
    unfolding tk nm ed .
  with h3 show ?thesis by simp
qed

subsection \<open>The loops over blocks\<close>

lemma spqr_nodes_frame:
  "spqr_nodes bc GC spqr ns st =
     st\<lparr>sk2orig := sk2orig (spqr_nodes bc GC spqr ns
                        \<lparr>memberNodes = X, sk2orig = sk2orig st, pairs = pairs st, ofile = Y\<rparr>),
        pairs := pairs (spqr_nodes bc GC spqr ns
                        \<lparr>memberNodes = X, sk2orig = sk2orig st, pairs = pairs st, ofile = Y\<rparr>)\<rparr>"
proof (induction ns arbitrary: st)
  case Nil
  show ?case by simp
next
  case (Cons n ns)
  let ?m = "fill_sk2orig bc GC (skeleton spqr n) (g_nodes (getGraph (skeleton spqr n))) (sk2orig st)"
  let ?p = "findTwoVertexCuts (skeleton spqr n) ?m (getTypeString (typeOf spqr n)) (pairs st)"
  have l: "spqr_nodes bc GC spqr (n # ns) st = spqr_nodes bc GC spqr ns (st\<lparr>sk2orig := ?m, pairs := ?p\<rparr>)"
    by (simp add: Let_def)
  have r: "spqr_nodes bc GC spqr (n # ns)
             \<lparr>memberNodes = X, sk2orig = sk2orig st, pairs = pairs st, ofile = Y\<rparr>
           = spqr_nodes bc GC spqr ns \<lparr>memberNodes = X, sk2orig = ?m, pairs = ?p, ofile = Y\<rparr>"
    by (simp add: Let_def)
  show ?case unfolding l r
    by (subst Cons.IH [of "st\<lparr>sk2orig := ?m, pairs := ?p\<rparr>"]) simp
qed

lemma bc_node_body_attr:
  assumes "pairs st = []"
  shows "bc_node_body ogdf names bc n st =
     (if typeOfBNode bc n = 0 then
        (if eligible ogdf bc n then
           st\<lparr>memberNodes := block_members ogdf bc n,
              sk2orig := sk2orig (block_run ogdf bc n (sk2orig st)),
              pairs := [],
              ofile := ofile st @ map (output_line names (block_members ogdf bc n))
                                    (pairs (block_run ogdf bc n (sk2orig st)))\<rparr>
         else st\<lparr>memberNodes := block_members ogdf bc n\<rparr>)
      else st)"
proof (cases "typeOfBNode bc n = 0")
  case False
  then show ?thesis by (simp add: bc_node_body_def)
next
  case True
  obtain members GC where
    g: "getBiComponent (GraphCopy_init ogdf (auxiliaryGraph bc)) bc n = (members, GC)"
    by (cases "getBiComponent (GraphCopy_init ogdf (auxiliaryGraph bc)) bc n")
  have mem: "block_members ogdf bc n = members" and cp: "block_copy ogdf bc n = GC"
    by (simp_all add: block_members_def block_copy_def g)
  show ?thesis
  proof (cases "eligible ogdf bc n")
    case False
    then show ?thesis
      using True by (auto simp: bc_node_body_def g mem eligible_def cp Let_def)
  next
    case el: True
    let ?spqr = "StaticSPQRTree_init ogdf GC"
    let ?st2 = "st\<lparr>memberNodes := members, pairs := getCutVertexPair GC n bc (pairs st)\<rparr>"
    let ?run = "spqr_nodes bc GC ?spqr (g_nodes (tree ?spqr))
                  \<lparr>memberNodes = members, sk2orig = sk2orig st,
                   pairs = getCutVertexPair GC n bc [], ofile = []\<rparr>"
    have run: "block_run ogdf bc n (sk2orig st) = ?run"
      by (simp add: block_run_def cp mem Let_def)
    have fr: "spqr_nodes bc GC ?spqr (g_nodes (tree ?spqr)) ?st2
                = ?st2\<lparr>sk2orig := sk2orig ?run, pairs := pairs ?run\<rparr>"
      using spqr_nodes_frame [of bc GC ?spqr "g_nodes (tree ?spqr)" ?st2 members "[]"] assms
      by simp
    have "bc_node_body ogdf names bc n st =
            (let st3 = spqr_nodes bc GC ?spqr (g_nodes (tree ?spqr)) ?st2
             in st3\<lparr>ofile := ofile st3 @ map (output_line names (memberNodes st3)) (pairs st3),
                    pairs := []\<rparr>)"
      using True el by (simp add: bc_node_body_def g eligible_def cp Let_def)
    then show ?thesis
      using True el unfolding fr run mem by (simp add: Let_def)
  qed
qed

lemma bc_node_body_pairs: "pairs st = [] \<Longrightarrow> pairs (bc_node_body ogdf names bc n st) = []"
  by (simp add: bc_node_body_attr)

lemma searchList_from_absent: "0 \<le> x \<Longrightarrow> (searchList_from S e x = -1) = (e \<notin> set S)"
  by (induction S arbitrary: x) auto

lemma searchList_absent: "(searchList S e = -1) = (e \<notin> set S)"
  by (simp add: searchList_def searchList_from_absent)

lemma prune_edges_maps:
  "copy_edge (prune_edges ces es GC) = copy_edge GC"
  "copy_node (prune_edges ces es GC) = copy_node GC"
  by (induction es arbitrary: GC) (simp_all add: delEdge_def)

lemma prune_edges_kept:
  "g_edges (gc_graph (prune_edges ces es GC))
     = filter (\<lambda>x. \<forall>e \<in> set es. e \<notin> set ces \<longrightarrow> x \<noteq> copy_edge GC e)
         (g_edges (gc_graph GC))"
proof (induction es arbitrary: GC)
  case Nil
  show ?case by simp
next
  case (Cons e es)
  show ?case
  proof (cases "e \<in> set ces")
    case True
    then show ?thesis using Cons.IH [of GC] by (simp add: searchList_absent)
  next
    case False
    have "g_edges (gc_graph (prune_edges ces (e # es) GC))
            = filter (\<lambda>x. \<forall>e' \<in> set es. e' \<notin> set ces \<longrightarrow> x \<noteq> copy_edge GC e')
                (filter (\<lambda>x. x \<noteq> copy_edge GC e) (g_edges (gc_graph GC)))"
      using False Cons.IH [of "delEdge GC (copy_edge GC e)"]
      by (simp add: searchList_absent delEdge_def)
    also have "\<dots> = filter (\<lambda>x. \<forall>e' \<in> set (e # es). e' \<notin> set ces \<longrightarrow> x \<noteq> copy_edge GC e')
                (g_edges (gc_graph GC))"
      using False by (auto intro: filter_cong)
    finally show ?thesis .
  qed
qed

lemma degree_zero: "(degree GC w = 0) = (\<forall>x \<in> set (g_edges (gc_graph GC)). source x \<noteq> w \<and> target x \<noteq> w)"
  by (auto simp: degree_def filter_empty_conv)

lemma delNode_isolated:
  assumes "degree GC w = 0"
  shows "g_edges (gc_graph (delNode GC w)) = g_edges (gc_graph GC)"
    and "copy_node (delNode GC w) = copy_node GC"
proof -
  have "filter (\<lambda>x. source x \<noteq> w \<and> target x \<noteq> w) (g_edges (gc_graph GC)) = g_edges (gc_graph GC)"
    using assms by (simp add: degree_zero filter_id_conv)
  then show "g_edges (gc_graph (delNode GC w)) = g_edges (gc_graph GC)"
    by (simp add: delNode_def)
  show "copy_node (delNode GC w) = copy_node GC" by (simp add: delNode_def)
qed

lemma degree_same_edges:
  "g_edges (gc_graph GC') = g_edges (gc_graph GC) \<Longrightarrow> degree GC' w = degree GC w"
  by (simp add: degree_def)

lemma set_insert_set: "set (set_insert x xs) = insert x (set xs)"
  by (auto simp: set_insert_def set_insort_key)

lemma set_insert_sorted: "sorted xs \<Longrightarrow> sorted (set_insert x xs)"
  by (simp add: set_insert_def sorted_insort)

lemma set_insert_distinct: "distinct xs \<Longrightarrow> distinct (set_insert x xs)"
  by (simp add: set_insert_def distinct_insort)

lemma prune_nodes_members:
  assumes "sorted acc" and "distinct acc"
  shows "set (fst (prune_nodes bc ns (acc, GC)))
           = set acc \<union> bc_original bc ` {v \<in> set ns. degree GC (copy_node GC v) \<noteq> 0}
         \<and> sorted (fst (prune_nodes bc ns (acc, GC)))
         \<and> distinct (fst (prune_nodes bc ns (acc, GC)))"
  using assms
proof (induction ns arbitrary: acc GC)
  case Nil
  then show ?case by simp
next
  case (Cons v ns)
  show ?case
  proof (cases "degree GC (copy_node GC v) = 0")
    case True
    define GC' where "GC' = delNode GC (copy_node GC v)"
    have cn: "copy_node GC' = copy_node GC" and ed: "g_edges (gc_graph GC') = g_edges (gc_graph GC)"
      unfolding GC'_def using delNode_isolated [OF True] by simp_all
    have dg: "degree GC' w = degree GC w" for w
      using ed by (rule degree_same_edges)
    have step: "prune_nodes bc (v # ns) (acc, GC) = prune_nodes bc ns (acc, GC')"
      unfolding GC'_def using True by simp
    have sets: "{u \<in> set (v # ns). degree GC (copy_node GC u) \<noteq> 0}
                  = {u \<in> set ns. degree GC' (copy_node GC' u) \<noteq> 0}"
      unfolding cn dg using True by auto
    show ?thesis unfolding step sets using Cons.IH [OF Cons.prems, of GC'] .
  next
    case False
    define acc' where "acc' = set_insert (bc_original bc v) acc"
    have sd: "sorted acc'" "distinct acc'"
      unfolding acc'_def using Cons.prems by (simp_all add: set_insert_sorted set_insert_distinct)
    have step: "prune_nodes bc (v # ns) (acc, GC) = prune_nodes bc ns (acc', GC)"
      unfolding acc'_def using False by simp
    have sets: "set acc \<union> bc_original bc ` {u \<in> set (v # ns). degree GC (copy_node GC u) \<noteq> 0}
                  = set acc' \<union> bc_original bc ` {u \<in> set ns. degree GC (copy_node GC u) \<noteq> 0}"
      unfolding acc'_def set_insert_set using False by auto
    show ?thesis unfolding step sets using Cons.IH [OF sd, of GC] .
  qed
qed

lemma block_members_contigs:
  "sorted_list_of_set (block_contigs ogdf bc n) = block_members ogdf bc n"
proof -
  let ?H = "auxiliaryGraph bc"
  let ?GC0 = "GraphCopy_init ogdf ?H"
  let ?GC1 = "prune_edges (hEdges bc n) (g_edges ?H) ?GC0"
  have kept: "g_edges (gc_graph ?GC1) = block_edges ogdf bc n"
    by (simp add: prune_edges_kept block_edges_def)
  have m: "block_members ogdf bc n = fst (prune_nodes bc (g_nodes ?H) ([], ?GC1))"
    by (simp add: block_members_def getBiComponent_def Let_def)
  from prune_nodes_members [of "[]" bc "g_nodes ?H" ?GC1]
  have s: "set (block_members ogdf bc n)
             = bc_original bc ` {v \<in> set (g_nodes ?H). degree ?GC1 (copy_node ?GC1 v) \<noteq> 0}"
    and so: "sorted (block_members ogdf bc n)" and di: "distinct (block_members ogdf bc n)"
    unfolding m by simp_all
  have "{v \<in> set (g_nodes ?H). degree ?GC1 (copy_node ?GC1 v) \<noteq> 0}
          = {v \<in> set (g_nodes ?H). \<exists>x \<in> set (block_edges ogdf bc n).
               source x = copy_node ?GC0 v \<or> target x = copy_node ?GC0 v}"
    by (auto simp: degree_zero kept prune_edges_maps)
  then have "set (block_members ogdf bc n) = block_contigs ogdf bc n"
    unfolding s block_contigs_def by simp
  then show ?thesis
    using so di by (metis sorted_list_of_set.idem_if_sorted_distinct)
qed



lemma bc_nodes_attr:
  assumes "pairs st = []"
  shows "ofile (bc_nodes ogdf names bc ns st)
           = ofile st @ map (\<lambda>r. output_line names (snd r) (fst r))
                          (fst (attributed_records ogdf bc ns (sk2orig st)))
         \<and> sk2orig (bc_nodes ogdf names bc ns st)
           = snd (attributed_records ogdf bc ns (sk2orig st))
         \<and> pairs (bc_nodes ogdf names bc ns st) = []"
  using assms
proof (induction ns arbitrary: st)
  case Nil
  then show ?case by simp
next
  case (Cons n ns)
  let ?st = "bc_node_body ogdf names bc n st"
  have p: "pairs ?st = []" using Cons.prems by (rule bc_node_body_pairs)
  note ih = Cons.IH [OF p]
  show ?case
  proof (cases "typeOfBNode bc n = 0 \<and> eligible ogdf bc n")
    case True
    then have o: "ofile ?st = ofile st @ map (output_line names (block_members ogdf bc n))
                                    (pairs (block_run ogdf bc n (sk2orig st)))"
      and m: "sk2orig ?st = sk2orig (block_run ogdf bc n (sk2orig st))"
      using Cons.prems by (simp_all add: bc_node_body_attr)
    show ?thesis using ih True unfolding o m
      by (simp add: split_beta block_members_contigs o_def)
  next
    case False
    then have o: "ofile ?st = ofile st" and m: "sk2orig ?st = sk2orig st"
      using Cons.prems by (auto simp: bc_node_body_attr)
    show ?thesis using ih False unfolding o m by auto
  qed
qed

lemma components_attr:
  assumes "pairs st = []"
  shows "ofile (components ogdf names bcs st)
           = ofile st @ map (\<lambda>r. output_line names (snd r) (fst r))
                          (attributed_output ogdf bcs (sk2orig st))"
  using assms
proof (induction bcs arbitrary: st)
  case Nil
  then show ?case by simp
next
  case (Cons bc bcs)
  show ?case
  proof (cases "numberOfBComps bc = 0")
    case True
    then show ?thesis using Cons.IH [OF Cons.prems] by simp
  next
    case False
    let ?st = "bc_nodes ogdf names bc (g_nodes (bcTree bc)) st"
    from bc_nodes_attr [OF Cons.prems, of ogdf names bc "g_nodes (bcTree bc)"]
    have a: "ofile ?st = ofile st @ map (\<lambda>r. output_line names (snd r) (fst r))
                (fst (attributed_records ogdf bc (g_nodes (bcTree bc)) (sk2orig st)))"
      and b: "sk2orig ?st = snd (attributed_records ogdf bc (g_nodes (bcTree bc)) (sk2orig st))"
      and c: "pairs ?st = []" by simp_all
    show ?thesis using False Cons.IH [OF c] unfolding a b by (simp add: split_beta)
  qed
qed

lemma P_edges_append: "P_edges sk m es c ps = ps @ P_edges sk m es c []"
  by (induction es arbitrary: c) auto

lemma findTwoVertexCuts_prefix: "\<exists>new. findTwoVertexCuts sk m type ps = ps @ new"
proof -
  consider "type = ''R''" | "type = ''P''" | "type = ''S''"
    | "type \<noteq> ''R''" "type \<noteq> ''P''" "type \<noteq> ''S''" by blast
  then show ?thesis
  proof cases
    case 1
    then show ?thesis by (simp add: findTwoVertexCuts_def R_edges_eq)
  next
    case 2
    then show ?thesis
      using P_edges_append [of sk m "g_edges (getGraph sk)" 0 ps]
      by (simp add: findTwoVertexCuts_def)
  next
    case 3
    then show ?thesis by (simp add: findTwoVertexCuts_S)
  next
    case 4
    then show ?thesis by (simp add: findTwoVertexCuts_def)
  qed
qed

lemma spqr_nodes_prefix: "\<exists>new. pairs (spqr_nodes bc GC spqr ns st) = pairs st @ new"
proof (induction ns arbitrary: st)
  case Nil
  show ?case by simp
next
  case (Cons n ns)
  let ?m = "fill_sk2orig bc GC (skeleton spqr n) (g_nodes (getGraph (skeleton spqr n))) (sk2orig st)"
  let ?p = "findTwoVertexCuts (skeleton spqr n) ?m (getTypeString (typeOf spqr n)) (pairs st)"
  obtain new1 where n1: "?p = pairs st @ new1" using findTwoVertexCuts_prefix by blast
  obtain new2 where "pairs (spqr_nodes bc GC spqr ns (st\<lparr>sk2orig := ?m, pairs := ?p\<rparr>))
                        = pairs (st\<lparr>sk2orig := ?m, pairs := ?p\<rparr>) @ new2"
    using Cons.IH by blast
  then have "pairs (spqr_nodes bc GC spqr (n # ns) st) = pairs st @ (new1 @ new2)"
    using n1 by (simp add: Let_def)
  then show ?case by blast
qed

text \<open>
  Against C1 as stated. Block 1 of the chain, the bridge 3-5, has two BC-tree edges and fails the test (one
  edge). The shortcut would push the pair (3, 5); the loop body pushes and writes
  nothing for the block.
\<close>

theorem C1_counterexample:
  "typeOfBNode chain_bc 1 = 0
   \<and> length (inEdges (bcTree chain_bc) 1) + length (outEdges (bcTree chain_bc) 1) = 2
   \<and> \<not> eligible chain_ogdf chain_bc 1
   \<and> getCutVertexPair (block_copy chain_ogdf chain_bc 1) 1 chain_bc [] = [(3, 5)]
   \<and> pairs (bc_node_body chain_ogdf chain_names chain_bc 1 initial_state) = []
   \<and> ofile (bc_node_body chain_ogdf chain_names chain_bc 1 initial_state) = []"
  by (simp add: chain_eval)

text \<open>
  C1, as the code has it. The shortcut is called after the test, on the blocks that
  pass it. For a block that fails the test the body stops at \<open>continue\<close>: only
  \<open>memberNodes\<close> changes, no pair is pushed and no line written. For a block that
  passes, the lines written start with the lines of the pairs that \<open>getCutVertexPair\<close>
  leaves, before those of the SPQR-tree.
\<close>

theorem C1_shortcut_only_behind_test:
  "(typeOfBNode bc n = 0 \<and> \<not> eligible ogdf bc n \<longrightarrow>
      bc_node_body ogdf names bc n st = st\<lparr>memberNodes := block_members ogdf bc n\<rparr>)
   \<and> (typeOfBNode bc n = 0 \<and> eligible ogdf bc n \<longrightarrow>
        (\<exists>rest. ofile (bc_node_body ogdf names bc n st)
           = ofile st @ map (output_line names (block_members ogdf bc n))
                          (getCutVertexPair (block_copy ogdf bc n) n bc (pairs st) @ rest)))"
proof (intro conjI impI)
  assume h: "typeOfBNode bc n = 0 \<and> \<not> eligible ogdf bc n"
  obtain members GC where
    g: "getBiComponent (GraphCopy_init ogdf (auxiliaryGraph bc)) bc n = (members, GC)"
    by (cases "getBiComponent (GraphCopy_init ogdf (auxiliaryGraph bc)) bc n")
  have mem: "block_members ogdf bc n = members" and cp: "block_copy ogdf bc n = GC"
    by (simp_all add: block_members_def block_copy_def g)
  show "bc_node_body ogdf names bc n st = st\<lparr>memberNodes := block_members ogdf bc n\<rparr>"
    using h by (auto simp: bc_node_body_def g mem eligible_def cp Let_def)
next
  assume h: "typeOfBNode bc n = 0 \<and> eligible ogdf bc n"
  obtain members GC where
    g: "getBiComponent (GraphCopy_init ogdf (auxiliaryGraph bc)) bc n = (members, GC)"
    by (cases "getBiComponent (GraphCopy_init ogdf (auxiliaryGraph bc)) bc n")
  have mem: "block_members ogdf bc n = members" and cp: "block_copy ogdf bc n = GC"
    by (simp_all add: block_members_def block_copy_def g)
  let ?spqr = "StaticSPQRTree_init ogdf GC"
  let ?st2 = "st\<lparr>memberNodes := members, pairs := getCutVertexPair GC n bc (pairs st)\<rparr>"
  let ?st3 = "spqr_nodes bc GC ?spqr (g_nodes (tree ?spqr)) ?st2"
  have body: "bc_node_body ogdf names bc n st =
            ?st3\<lparr>ofile := ofile ?st3 @ map (output_line names (memberNodes ?st3)) (pairs ?st3),
                 pairs := []\<rparr>"
    using h by (simp add: bc_node_body_def g eligible_def cp Let_def)
  have fr: "memberNodes ?st3 = members" "ofile ?st3 = ofile st"
    by (subst spqr_nodes_frame [of _ _ _ _ _ "[]" "[]"], simp)+
  obtain rest where "pairs ?st3 = pairs ?st2 @ rest" using spqr_nodes_prefix by blast
  then have "ofile (bc_node_body ogdf names bc n st)
           = ofile st @ map (output_line names (block_members ogdf bc n))
                          (getCutVertexPair (block_copy ogdf bc n) n bc (pairs st) @ rest)"
    unfolding body mem cp by (simp add: fr)
  then show "\<exists>rest. ofile (bc_node_body ogdf names bc n st)
           = ofile st @ map (output_line names (block_members ogdf bc n))
                          (getCutVertexPair (block_copy ogdf bc n) n bc (pairs st) @ rest)"
    by blast
qed

text \<open>On the chain: block 1 fails the test, block 2 passes it and has two BC-tree edges.\<close>

theorem C1_witness:
  "bc_node_body chain_ogdf chain_names chain_bc 1 initial_state
     = initial_state\<lparr>memberNodes := [3, 5]\<rparr>
   \<and> (\<exists>rest. ofile (bc_node_body chain_ogdf chain_names chain_bc 2 initial_state)
         = map (output_line chain_names [5, 6, 7, 8]) ((5, 7) # rest))"
proof -
  have b1: "typeOfBNode chain_bc 1 = 0 \<and> \<not> eligible chain_ogdf chain_bc 1"
    by (simp add: chain_eval)
  have m1: "block_members chain_ogdf chain_bc 1 = [3, 5]"
    by (simp add: chain_eval)
  have b2: "typeOfBNode chain_bc 2 = 0 \<and> eligible chain_ogdf chain_bc 2"
    by (simp add: chain_eval)
  have m2: "block_members chain_ogdf chain_bc 2 = [5, 6, 7, 8]"
    by (simp add: chain_eval)
  have c2: "getCutVertexPair (block_copy chain_ogdf chain_bc 2) 2 chain_bc (pairs initial_state)
              = [(5, 7)]"
    by (simp add: chain_eval)
  have o: "ofile initial_state = []" by (simp add: initial_state_def)
  note t = C1_shortcut_only_behind_test [of chain_bc _ chain_ogdf chain_names initial_state]
  have "bc_node_body chain_ogdf chain_names chain_bc 1 initial_state
     = initial_state\<lparr>memberNodes := [3, 5]\<rparr>"
    using t [of 1, THEN conjunct1, rule_format, OF b1] unfolding m1 .
  moreover have "\<exists>rest. ofile (bc_node_body chain_ogdf chain_names chain_bc 2 initial_state)
         = map (output_line chain_names [5, 6, 7, 8]) ((5, 7) # rest)"
    using t [of 2, THEN conjunct2, rule_format, OF b2] unfolding m2 c2 o by simp
  ultimately show ?thesis by blast
qed

text \<open>
  C4. Every line of the output file is the two names of a pair, then a tab and a name
  for each member contig, in ascending order, of the block in which the pair was found:
  the contigs of the nodes that touch an edge of that block.
\<close>

theorem C4_members_of_own_block:
  "ofile (components ogdf names bcs initial_state)
     = map (\<lambda>r. names (fst (fst r)) @ [CHR 0x09] @ names (snd (fst r))
                  @ concat (map (\<lambda>it. CHR 0x09 # names it) (snd r)))
         (attributed_output ogdf bcs (\<lambda>_. 0))"
  using components_attr [of initial_state ogdf names bcs]
  by (simp add: initial_state_def output_line_def tab_def)

text \<open>On the chain: two lines with the members of block 0, three with those of block 2.\<close>

theorem C4_witness:
  "attributed_output chain_ogdf [chain_bc] (\<lambda>_. 0)
     = [((1, 3), [1, 2, 3, 4]), ((2, 4), [1, 2, 3, 4]),
        ((5, 7), [5, 6, 7, 8]), ((5, 7), [5, 6, 7, 8]), ((6, 8), [5, 6, 7, 8])]
   \<and> ofile (components chain_ogdf chain_names [chain_bc] initial_state)
     = [''c1'' @ CHR 0x09 # ''c3'' @ CHR 0x09 # ''c1'' @ CHR 0x09 # ''c2'' @ CHR 0x09 # ''c3''
          @ CHR 0x09 # ''c4'',
        ''c2'' @ CHR 0x09 # ''c4'' @ CHR 0x09 # ''c1'' @ CHR 0x09 # ''c2'' @ CHR 0x09 # ''c3''
          @ CHR 0x09 # ''c4'',
        ''c5'' @ CHR 0x09 # ''c7'' @ CHR 0x09 # ''c5'' @ CHR 0x09 # ''c6'' @ CHR 0x09 # ''c7''
          @ CHR 0x09 # ''c8'',
        ''c5'' @ CHR 0x09 # ''c7'' @ CHR 0x09 # ''c5'' @ CHR 0x09 # ''c6'' @ CHR 0x09 # ''c7''
          @ CHR 0x09 # ''c8'',
        ''c6'' @ CHR 0x09 # ''c8'' @ CHR 0x09 # ''c5'' @ CHR 0x09 # ''c6'' @ CHR 0x09 # ''c7''
          @ CHR 0x09 # ''c8'']"
proof -
  have r: "attributed_output chain_ogdf [chain_bc] (\<lambda>_. 0)
     = [((1, 3), [1, 2, 3, 4]), ((2, 4), [1, 2, 3, 4]),
        ((5, 7), [5, 6, 7, 8]), ((5, 7), [5, 6, 7, 8]), ((6, 8), [5, 6, 7, 8])]"
    by (simp add: block_members_contigs chain_eval)
  show ?thesis
    using C4_members_of_own_block [of chain_ogdf chain_names "[chain_bc]"]
    unfolding r by (simp add: r chain_names_def)
qed


end
